theory Spec2Isabelle
  imports Main "HOL-Library.Sublist"
begin

section \<open>JavaScript values used by the lesson generator\<close>

text \<open>
  A JavaScript string is a sequence of UTF-16 code units. Every string literal of the
  modelled sources lies in the range U+0000 to U+00FF, so a string is modelled as a HOL
  \<open>string\<close> whose characters are the code units of that range.
\<close>

datatype error = TypeError

text \<open>
  The white space of \<open>String.prototype.trim\<close> and of the regular expression class
  \<open>\s\<close>, within the modelled range: TAB, LF, VT, FF, CR, SPACE and NBSP.
\<close>

definition isWhiteSpace :: "char \<Rightarrow> bool" where
  "isWhiteSpace c = (of_char c \<in> {9, 10, 11, 12, 13, 32, 160 :: nat})"

definition trim :: "string \<Rightarrow> string" where
  "trim s = rev (dropWhile isWhiteSpace (rev (dropWhile isWhiteSpace s)))"

text \<open>
  \<open>String(n)\<close> and \<open>`${n}`\<close> for a number that is a non-negative integer (an array
  index, a count, a calendar year): its decimal digits.
\<close>

definition digitChar :: "nat \<Rightarrow> char" where
  "digitChar d = char_of (48 + d)"

function numberToString :: "nat \<Rightarrow> string" where
  "numberToString n =
     (if n < 10 then [digitChar n] else numberToString (n div 10) @ [digitChar (n mod 10)])"
  by pat_completeness auto
termination
  by (relation "measure id") auto

declare numberToString.simps [simp del]

text \<open>\<open>s.split(c)\<close> for a one-character separator: the segments between its occurrences.\<close>

fun split :: "char \<Rightarrow> string \<Rightarrow> string list" where
  "split c [] = [[]]"
| "split c (x # xs) =
     (if x = c then [] # split c xs
      else (case split c xs of [] \<Rightarrow> [[x]] | seg # segs \<Rightarrow> (x # seg) # segs))"

text \<open>
  The values the generator handles dynamically: the entries of its template variables
  (\<open>Record<string, string | number>\<close>), the arguments that the regular expression engine
  passes to a replacer callback, and \<open>undefined\<close> for a parameter that received no
  argument or a property that is absent.
\<close>

datatype jsvalue = Str string | Num nat | Undefined

text \<open>\<open>String(v)\<close>, which is also what a template literal \<open>`${v}`\<close> inserts.\<close>

fun toString :: "jsvalue \<Rightarrow> string" where
  "toString (Str s) = s"
| "toString (Num n) = numberToString n"
| "toString Undefined = ''undefined''"

text \<open>\<open>a || b\<close> on strings: the empty string is falsy.\<close>

definition orElse :: "string \<Rightarrow> string \<Rightarrow> string" where
  "orElse a b = (if a = [] then b else a)"

fun nthArg :: "jsvalue list \<Rightarrow> nat \<Rightarrow> jsvalue" where
  "nthArg [] i = Undefined"
| "nthArg (a # as) 0 = a"
| "nthArg (a # as) (Suc i) = nthArg as i"

text \<open>
  \<open>x.trim()\<close> on such a parameter: a string is trimmed; a number has no \<open>trim\<close>
  method and \<open>undefined\<close> has no properties, so the call throws a TypeError.
\<close>

fun callTrim :: "jsvalue \<Rightarrow> error + string" where
  "callTrim (Str s) = Inr (trim s)"
| "callTrim (Num n) = Inl TypeError"
| "callTrim Undefined = Inl TypeError"

subsection \<open>The regular expressions of the generator\<close>

text \<open>
  Every conditional-block expression of the generator has the shape
  \<open>L0 [\s\S]*? L1 [\s\S]*? ... Ln\<close>: literal markers separated by lazy gaps that match
  any code unit. \<open>splitAtFirst m s\<close> finds the first occurrence of the literal \<open>m\<close> in
  \<open>s\<close> and returns the text before it and the text after it.
\<close>

fun splitAtFirst :: "string \<Rightarrow> string \<Rightarrow> (string \<times> string) option" where
  "splitAtFirst m [] = (if m = [] then Some ([], []) else None)"
| "splitAtFirst m (c # cs) =
     (if prefix m (c # cs) then Some ([], drop (length m) (c # cs))
      else (case splitAtFirst m cs of
              None \<Rightarrow> None
            | Some (gap, rest) \<Rightarrow> Some (c # gap, rest)))"

text \<open>
  The markers after the opening one, each after a lazy gap. A lazy gap followed by a
  literal ends at the first occurrence of the literal from which the rest of the
  expression still matches; a later occurrence leaves a shorter remainder, so when the
  rest does not match after the first occurrence it matches after none, and the gaps are
  the texts up to the first occurrences. The result is the gaps and the text after the
  match.
\<close>

fun lazyGaps :: "string list \<Rightarrow> string \<Rightarrow> (string list \<times> string) option" where
  "lazyGaps [] s = Some ([], s)"
| "lazyGaps (m # ms) s =
     (case splitAtFirst m s of
        None \<Rightarrow> None
      | Some (gap, r) \<Rightarrow>
          (case lazyGaps ms r of
             None \<Rightarrow> None
           | Some (gaps, rest) \<Rightarrow> Some (gap # gaps, rest)))"

text \<open>
  A block expression: its opening marker, the markers that follow, and whether the gaps
  are written as capture groups \<open>([\s\S]*?)\<close> or as plain \<open>[\s\S]*?\<close>.
\<close>

record blockRegex =
  openMarker :: string
  markers :: "string list"
  capturing :: bool

definition matchAt :: "blockRegex \<Rightarrow> string \<Rightarrow> (string list \<times> string) option" where
  "matchAt re s =
     (if prefix (openMarker re) s then lazyGaps (markers re) (drop (length (openMarker re)) s)
      else None)"

text \<open>
  The arguments of a replacer callback: the matched text, then one argument per capture
  group, then the offset of the match and the whole string searched.
\<close>

definition replacerArgs :: "blockRegex \<Rightarrow> string \<Rightarrow> string list \<Rightarrow> nat \<Rightarrow> string \<Rightarrow> jsvalue list" where
  "replacerArgs re matched gaps offset whole =
     Str matched # (if capturing re then map Str gaps else []) @ [Num offset, Str whole]"

text \<open>
  \<open>whole.replace(re, callback)\<close> for a global block expression: the text is scanned from
  the left; at a match the callback's result replaces the matched text and the scan goes
  on after the match; a callback that throws ends the whole call. \<open>offset\<close> is the
  position of \<open>s\<close> in \<open>whole\<close>. A match that consumes nothing (an expression whose
  markers are all empty) is replaced and the scan advances by one code unit.
\<close>

function replaceBlocks ::
  "blockRegex \<Rightarrow> (jsvalue list \<Rightarrow> error + string) \<Rightarrow> string \<Rightarrow> nat \<Rightarrow> string \<Rightarrow> error + string" where
  "replaceBlocks re callback whole offset [] =
     (case matchAt re [] of
        None \<Rightarrow> Inr []
      | Some (gaps, rest) \<Rightarrow> callback (replacerArgs re [] gaps offset whole))"
| "replaceBlocks re callback whole offset (c # cs) =
     (case matchAt re (c # cs) of
        None \<Rightarrow>
          (case replaceBlocks re callback whole (Suc offset) cs of
             Inl e \<Rightarrow> Inl e
           | Inr out \<Rightarrow> Inr (c # out))
      | Some (gaps, rest) \<Rightarrow>
          (let n = length (c # cs) - length rest;
               matched = take n (c # cs)
           in case callback (replacerArgs re matched gaps offset whole) of
                Inl e \<Rightarrow> Inl e
              | Inr replacement \<Rightarrow>
                  (if length rest < length (c # cs) then
                     (case replaceBlocks re callback whole (offset + n) rest of
                        Inl e \<Rightarrow> Inl e
                      | Inr out \<Rightarrow> Inr (replacement @ out))
                   else
                     (case replaceBlocks re callback whole (Suc offset) cs of
                        Inl e \<Rightarrow> Inl e
                      | Inr out \<Rightarrow> Inr (replacement @ c # out)))))"
  by pat_completeness auto
termination
  by (relation "measure (\<lambda>(re, callback, whole, offset, s). length s)") auto

subsection \<open>Template variable tokens\<close>

text \<open>
  The expression \<open><%=\s*key\s*%>\<close> at the start of \<open>s\<close>: the text after the token when
  it matches. The keys are identifiers and neither a key nor \<open>%>\<close> starts with white
  space, so each greedy \<open>\s*\<close> takes all the white space there is.
\<close>

definition matchVariableToken :: "string \<Rightarrow> string \<Rightarrow> string option" where
  "matchVariableToken key s =
     (if prefix ''<%='' s then
        (let s1 = dropWhile isWhiteSpace (drop 3 s) in
         if prefix key s1 then
           (let s2 = dropWhile isWhiteSpace (drop (length key) s1) in
            if prefix ''%>'' s2 then Some (drop 2 s2) else None)
         else None)
      else None)"

text \<open>
  A replacement given as a string is expanded at each match: \<open>$$\<close> is a dollar sign,
  \<open>$&\<close> the matched text, \<open>$`\<close> the text before the match and \<open>$'\<close> the text after
  it. The token expression has no capture group, so \<open>$1\<close> to \<open>$99\<close> and every other
  \<open>$\<close> stay as they are.
\<close>

fun getSubstitution :: "string \<Rightarrow> string \<Rightarrow> string \<Rightarrow> string \<Rightarrow> string" where
  "getSubstitution matched preceding following [] = []"
| "getSubstitution matched preceding following [c] = [c]"
| "getSubstitution matched preceding following (c # d # r) =
     (if c = CHR ''$'' \<and> d = CHR ''$'' then CHR ''$'' # getSubstitution matched preceding following r
      else if c = CHR ''$'' \<and> d = CHR ''&'' then matched @ getSubstitution matched preceding following r
      else if c = CHR ''$'' \<and> d = CHR 0x60 then preceding @ getSubstitution matched preceding following r
      else if c = CHR ''$'' \<and> d = CHR 0x27 then following @ getSubstitution matched preceding following r
      else c # getSubstitution matched preceding following (d # r))"

text \<open>
  \<open>content.replace(new RegExp(`<%=\\s*${key}\\s*%>`, 'g'), replacement)\<close>: every token
  of the key is replaced; \<open>consumed\<close> is the part of the searched string before \<open>s\<close>.
\<close>

function replaceVariable :: "string \<Rightarrow> string \<Rightarrow> string \<Rightarrow> string \<Rightarrow> string" where
  "replaceVariable key replacement consumed [] = []"
| "replaceVariable key replacement consumed (c # cs) =
     (case matchVariableToken key (c # cs) of
        None \<Rightarrow> c # replaceVariable key replacement (consumed @ [c]) cs
      | Some rest \<Rightarrow>
          (let matched = take (length (c # cs) - length rest) (c # cs) in
           if length rest < length (c # cs) then
             getSubstitution matched consumed rest replacement
               @ replaceVariable key replacement (consumed @ matched) rest
           else
             getSubstitution matched consumed rest replacement
               @ c # replaceVariable key replacement (consumed @ [c]) cs))"
  by pat_completeness auto
termination
  by (relation "measure (\<lambda>(key, replacement, consumed, s). length s)") auto

section \<open>The configuration model\<close>

text \<open>
  \<open>LessonPage\<close> of \<open>types/lesson.ts\<close>, with the \<open>description\<close> that the page form
  also stores. A page owns the list of its child pages, so the type is recursive. The
  selectors carry a prime: the sources use the bare names for variables as well.
\<close>

datatype LessonPage = LessonPage
  (id': string)
  (title': string)
  (content': string)
  (description': string)
  (order': nat)
  (type': string)
  (level': nat)
  (parentId': "string option")
  (children': "LessonPage list")
  (page': "string option")
  (innerNode': bool)

datatype TemplateType =
    latest_core_legacy_standard
  | latest_core_legacy_articulate
  | latest_core_lms_agnostic

text \<open>
  \<open>LessonConfig\<close>: the fields that the generator reads, and the overrides and the
  template type that it could read. The publication fields and the feature flags of the
  interface are read by no modelled function.
\<close>

record LessonConfig =
  language :: string
  lessonTitle :: string
  lessonId :: string
  metedPath :: string
  description :: string
  keywords' :: string
  customCopyrightYear :: "string option"
  customCoverImageCredit :: "string option"
  templateType :: TemplateType
  useBootstrap :: bool
  pages :: "LessonPage list"

text \<open>
  What \<open>new Date()\<close> returns: an instant, in the calendar fields of local time.
  \<open>getFullYear\<close> is the only method the generator calls on it.
\<close>

record Date =
  fullYear :: nat
  monthIndex :: nat
  dayOfMonth :: nat
  millisecondOfDay :: nat

definition getFullYear :: "Date \<Rightarrow> nat" where
  "getFullYear d = fullYear d"

section \<open>The Latest Core PHP generator\<close>

text \<open>
  The methods of \<open>LatestCorePhpGenerator\<close>. The object's \<open>config\<close> is the argument
  \<open>config\<close>; \<open>now\<close> is the value of the \<open>new Date()\<close> that the method evaluates.
\<close>

definition getTemplateVariables :: "Date \<Rightarrow> LessonConfig \<Rightarrow> (string \<times> jsvalue) list" where
  "getTemplateVariables now config =
     (let currentYear = getFullYear now in
      [(''lessonTitle'', Str (orElse (lessonTitle config) ''Untitled Lesson'')),
       (''lessonDesc'', Str (orElse (description config) ''MetEd lesson created with the lesson generator'')),
       (''lessonKeys'', Str (orElse (keywords' config) ''meteorology, education, training'')),
       (''lessonID'', if lessonId config = [] then Num 0 else Str (lessonId config)),
       (''lessonPath'', Str ''/''),
       (''copyrightYear'', Num currentYear),
       (''splashImageCredit'', Str []),
       (''lessonLang'', Str (orElse (language config) ''EN'')),
       (''templateType'', Str ''multi-print'')])"

text \<open>A property read \<open>variables.key\<close>.\<close>

definition lookupVar :: "(string \<times> jsvalue) list \<Rightarrow> string \<Rightarrow> jsvalue" where
  "lookupVar variables key = (case map_of variables key of None \<Rightarrow> Undefined | Some v \<Rightarrow> v)"

definition getLangCode :: "LessonConfig \<Rightarrow> string" where
  "getLangCode config =
     (if language config = ''ES'' then ''es''
      else if language config = ''FR'' then ''fr''
      else ''en'')"

definition getProducedByText :: "LessonConfig \<Rightarrow> string" where
  "getProducedByText config =
     (if language config = ''ES'' then ''Producido por The COMET'' @ [CHR 0xAE] @ '' Program''
      else if language config = ''FR'' then ''Produit par le programme COMET'' @ [CHR 0xAE]
      else ''Produced by The COMET&reg; Program'')"

definition getAllRightsReservedText :: "LessonConfig \<Rightarrow> string" where
  "getAllRightsReservedText config =
     (if language config = ''ES'' then ''Reservados todos los derechos.''
      else if language config = ''FR'' then ''Tous droits r'' @ [CHR 0xE9] @ ''serv'' @ [CHR 0xE9] @ ''s.''
      else ''All Rights Reserved.'')"

definition getLegalNoticesText :: "LessonConfig \<Rightarrow> string" where
  "getLegalNoticesText config =
     (if language config = ''ES'' then ''Avisos legales''
      else if language config = ''FR'' then ''Mentions juridiques''
      else ''Legal notices'')"

definition getLegalNoticesUrl :: "LessonConfig \<Rightarrow> string" where
  "getLegalNoticesUrl config =
     (if language config = ''ES'' then ''https://meted.ucar.edu/legal_es.htm''
      else if language config = ''FR'' then ''https://meted.ucar.edu/legal.htm''
      else ''https://meted.ucar.edu/legal.htm'')"

definition getBackToTopText :: "LessonConfig \<Rightarrow> string" where
  "getBackToTopText config =
     (if language config = ''ES'' then ''Arriba''
      else if language config = ''FR'' then ''Haut de la page''
      else ''Back to Top'')"

subsection \<open>The unit print page\<close>

text \<open>
  The fixed text of the template literal of \<open>generateUnitPrintContent\<close>, in the order of
  the source. The short pieces next to an interpolation are written in the function
  itself.
\<close>

definition unitPrintProlog :: string where
  \<open>unitPrintProlog =
     ''<?php\<newline>'' @
     ''require_once( 'cometAPI.inc.php' );\<newline>'' @
     ''$mm = new MediaItemManager();\<newline>'' @
     ''?>\<newline>'' @
     ''<!doctype html>\<newline>'' @
     ''<html lang="''\<close>

definition unitPrintHeadOpen :: string where
  \<open>unitPrintHeadOpen =
     ''">\<newline>'' @
     ''<head>\<newline>'' @
     ''    <title>''\<close>

definition unitPrintMeta :: string where
  \<open>unitPrintMeta =
     ''</title>\<newline>'' @
     ''    <meta content="text/html; charset=UTF-8" http-equiv="content-type">\<newline>'' @
     ''    <meta name="author" content="UCAR/COMET">\<newline>'' @
     ''    <meta name="dcterms.rightsHolder" content="UCAR/COMET">\<newline>'' @
     ''    <meta name="robots" content="all">\<newline>'' @
     ''    <meta name="Description" content="''\<close>

definition unitPrintKeywordsMeta :: string where
  \<open>unitPrintKeywordsMeta =
     ''">\<newline>'' @
     ''    <meta name="keywords" content="''\<close>

definition unitPrintCoreTags :: string where
  \<open>unitPrintCoreTags =
     ''">\<newline>'' @
     ''    <meta name="viewport" content="width=device-width">\<newline>'' @
     ''    <meta name="viewport" content="initial-scale=1.0">\<newline>'' @
     ''<!-- =CORE TAGS START= -->\<newline>'' @
     ''    <link rel="stylesheet" type="text/css" media="screen" href="bootstrap/css/bootstrap.min.css">\<newline>'' @
     ''    <link rel="stylesheet" type="text/css" media="screen" href="jquery/jquery-ui.min.css">\<newline>'' @
     ''    <link rel="stylesheet" type="text/css" media="screen" href="css/meted-base.min.css">\<newline>'' @
     ''    <script src="jquery/jquery.min.js"></script>\<newline>'' @
     ''    <script src="jquery/jquery-ui.min.js"></script>\<newline>'' @
     ''    <script src="jquery/jquery-plugins.min.js"></script>\<newline>'' @
     ''    <script src="bootstrap/js/bootstrap.min.js"></script>\<newline>'' @
     ''    <script src="modernizr/modernizr.min.js"></script>\<newline>'' @
     ''    <link rel="stylesheet" type="text/css" media="print" href="css/module-print.css">\<newline>'' @
     ''    <script src="jquery/defaults.js"></script>\<newline>'' @
     ''<!-- =CORE TAGS END= -->\<newline>'' @
     ''    <script>\<newline>'' @
     ''    var printVersion = true;\<newline>'' @
     ''    </script>\<newline>'' @
     ''    <!--[if lte IE 9]><script type="text/javascript" src="jquery/apps/draw/excanvas.js"></script><script type="text/javascript" src="ie-support/respond.js"></script><link rel="stylesheet" type="text/css" media="screen" href="ie-support/ie-support.css" /><![endif]-->\<newline>'' @
     ''</head>\<newline>'' @
     ''\<newline>'' @
     ''<body>\<newline>'' @
     ''    <!-- MODULE WRAPPER (container) ==================================-->\<newline>'' @
     ''    <main id="module-wrapper" class="container">\<newline>'' @
     ''        <div class="row">\<newline>'' @
     ''            <header id="module-topbanner">\<newline>'' @
     ''                ''\<close>

definition unitPrintBannerGap :: string where
  \<open>unitPrintBannerGap =
     ''\<newline>'' @
     ''                ''\<close>

definition unitPrintTocOpen :: string where
  \<open>unitPrintTocOpen =
     ''\<newline>'' @
     ''            </header>\<newline>'' @
     ''        </div>\<newline>'' @
     ''\<newline>'' @
     ''        <div class="row">\<newline>'' @
     ''            <!-- TABLE OF CONTENTS ==================================-->\<newline>'' @
     ''            <nav id="tableofcontents" class="sidebar-toc">\<newline>'' @
     ''                <ul class="nav lc-docs-sidenav">\<newline>'' @
     ''                    ''\<close>

definition unitPrintTocClose :: string where
  \<open>unitPrintTocClose =
     ''\<newline>'' @
     ''                    <li><a href="#page_contributors">Contributors</a></li>\<newline>'' @
     ''                </ul>\<newline>'' @
     ''            </nav>\<newline>'' @
     ''\<newline>'' @
     ''            <!-- MODULE CONTENT ==================================-->\<newline>'' @
     ''            <div id="module-content" class="col-md-9">\<newline>'' @
     ''                <div class="row unit-header"></div>\<newline>'' @
     ''                ''\<close>

definition unitPrintSectionGap :: string where
  \<open>unitPrintSectionGap =
     ''\<newline>'' @
     ''                    ''\<close>

definition unitPrintHeadingGap :: string where
  \<open>unitPrintHeadingGap =
     ''\<newline>'' @
     ''                    \<newline>'' @
     ''                    ''\<close>

definition contentPlaceholder :: string where
  \<open>contentPlaceholder =
     ''<!-- Unit content will be added here by the content management system -->\<newline>'' @
     ''                    <div class="unit-content-placeholder">\<newline>'' @
     ''                        <div class="alert alert-info">\<newline>'' @
     ''                            <h4>Content Placeholder</h4>\<newline>'' @
     ''                            <p>This unit is ready for content to be added through your content management system.</p>\<newline>'' @
     ''                            ''\<close>

definition unitPrintContributors :: string where
  \<open>unitPrintContributors =
     ''\<newline>'' @
     ''                        </div>\<newline>'' @
     ''                    </div>\<newline>'' @
     ''                </section>\<newline>'' @
     ''                \<newline>'' @
     ''                <section id="page_contributors" class="page">\<newline>'' @
     ''                    <h3>Contributors</h3>\<newline>'' @
     ''                    <p>Content contributors and acknowledgments will be listed here.</p>\<newline>'' @
     ''                </section>\<newline>'' @
     ''            </div>\<newline>'' @
     ''            <!-- END MODULE CONTENT ==============================-->\<newline>'' @
     ''        </div>\<newline>'' @
     ''\<newline>'' @
     ''    <!-- MODULE FOOTER ==================================-->\<newline>'' @
     ''    <footer id="module-footer" class="row">\<newline>'' @
     ''        <div class="col-md-10 col-sm-12">\<newline>'' @
     ''            <p class="footer-text">''\<close>

definition unitPrintFooterLinks :: string where
  \<open>unitPrintFooterLinks =
     ''\<newline>'' @
     ''        </div>\<newline>'' @
     ''        <div class="col-md-2 hidden-sm hidden-xs">\<newline>'' @
     ''            <ul class="footer-links list-unstyled">\<newline>'' @
     ''                <li><a href="https://www.meted.ucar.edu/"><span class="glyphicon glyphicon-link"></span>MetEd</a></li>\<newline>'' @
     ''                <li><a href="https://comet.ucar.edu"><span class="glyphicon glyphicon-link"></span>COMET</a></li>\<newline>'' @
     ''            </ul>\<newline>'' @
     ''        </div>\<newline>'' @
     ''    </footer>\<newline>'' @
     ''    <!-- END MODULE FOOTER ==================================-->\<newline>'' @
     ''\<newline>'' @
     ''    </main>\<newline>'' @
     ''    <!-- END MODULE WRAPPER (container) ==================================-->\<newline>'' @
     ''\<newline>'' @
     ''    <!-- BACK TO TOP BUTTON =========================== -->\<newline>'' @
     ''    <p class="back-top">\<newline>'' @
     ''        ''\<close>

definition unitPrintEpilog :: string where
  \<open>unitPrintEpilog =
     ''\<newline>'' @
     ''    </p>\<newline>'' @
     ''\<newline>'' @
     ''    <!-- MODAL PROMPTS ======================== -->\<newline>'' @
     ''    <div id="quiz-prompt"></div>\<newline>'' @
     ''\<newline>'' @
     ''    <!-- PRINT STYLES SCRIPT ==========================-->\<newline>'' @
     ''    <script>\<newline>'' @
     ''    $(document).ready(function() {\<newline>'' @
     ''        // Remove all media stylesheets\<newline>'' @
     ''        $('link[media~="screen"]').remove();\<newline>'' @
     ''        // Convert print stylesheet to all-media\<newline>'' @
     ''        $('link[media~="print"]').attr('media', 'all');\<newline>'' @
     ''    });\<newline>'' @
     ''    </script>\<newline>'' @
     ''</body>\<newline>'' @
     ''</html>''\<close>

text \<open>
  The template literal: the fixed text with the sixteen interpolations of the source.
  The page's \<open>content\<close> is not among them.
\<close>

definition generateUnitPrintContent :: "LessonConfig \<Rightarrow> Date \<Rightarrow> LessonPage \<Rightarrow> nat \<Rightarrow> string" where
  \<open>generateUnitPrintContent config now page unitNumber =
     (let templateVariables = getTemplateVariables now config in
        unitPrintProlog @
        getLangCode config @
        unitPrintHeadOpen @
        toString (lookupVar templateVariables ''lessonTitle'') @
        unitPrintMeta @
        toString (lookupVar templateVariables ''lessonDesc'') @
        unitPrintKeywordsMeta @
        toString (lookupVar templateVariables ''lessonKeys'') @
        unitPrintCoreTags @
        ''<a id="module-title" class="module-title-text" href="index.htm">'' @
        title' page @
        ''</a>'' @
        unitPrintBannerGap @
        ''<h3 id="module-credit" class="hidden-sm hidden-xs">\<newline>'' @ ''                    '' @
        getProducedByText config @
        ''\<newline>'' @ ''                </h3>'' @
        unitPrintTocOpen @
        ''<li><a href="#page_'' @
        numberToString unitNumber @
        ''-0-0">'' @
        title' page @
        ''</a></li>'' @
        unitPrintTocClose @
        ''<section id="page_'' @
        numberToString unitNumber @
        ''-0-0" class="page">'' @
        unitPrintSectionGap @
        ''<h3>'' @
        title' page @
        ''</h3>'' @
        unitPrintHeadingGap @
        contentPlaceholder @
        ''<p><strong>Unit:</strong> '' @
        title' page @
        ''</p>'' @
        unitPrintContributors @
        ''&copy; '' @
        toString (lookupVar templateVariables ''copyrightYear'') @
        '', <a href="https://www.ucar.edu/">The University Corporation for Atmospheric Research</a><br>'' @
        getAllRightsReservedText config @
        '' <a href="'' @
        getLegalNoticesUrl config @
        ''">'' @
        getLegalNoticesText config @
        ''</a></p>'' @
        unitPrintFooterLinks @
        ''<a href="#top"><span class="glyphicon glyphicon-upload"></span>'' @
        getBackToTopText config @
        ''</a>'' @
        unitPrintEpilog)\<close>

subsection \<open>The archive under construction\<close>

text \<open>
  The files of the \<open>JSZip\<close> object, in insertion order: path and content.
  \<open>zip.file(name, content)\<close> replaces the entry of that name or appends a new one.
  The folder entries that JSZip adds for the directories of a path are not modelled.
\<close>

type_synonym jszip = "(string \<times> string) list"

fun zipFile :: "string \<Rightarrow> string \<Rightarrow> jszip \<Rightarrow> jszip" where
  "zipFile name content [] = [(name, content)]"
| "zipFile name content ((n, c) # entries) =
     (if n = name then (name, content) # entries else (n, c) # zipFile name content entries)"

text \<open>
  \<open>pages.forEach((page, index) => ...)\<close> of \<open>generateUnitPrintFiles\<close>, from position
  \<open>index\<close> on. Each call of \<open>generateUnitPrintContent\<close> reads the clock itself:
  \<open>clock f\<close> is the instant read while the file \<open>f\<close> is produced.
\<close>

function generateUnitPrintFilesFrom ::
  "LessonConfig \<Rightarrow> (string \<Rightarrow> Date) \<Rightarrow> nat \<Rightarrow> LessonPage list \<Rightarrow> jszip \<Rightarrow> jszip" where
  "generateUnitPrintFilesFrom config clock index [] zip' = zip'"
| "generateUnitPrintFilesFrom config clock index (page # rest) zip' =
     (let unitNumber = index + 1;
          filename = ''print_'' @ numberToString unitNumber @ ''.php'';
          content = generateUnitPrintContent config (clock filename) page unitNumber
      in generateUnitPrintFilesFrom config clock (Suc index) rest (zipFile filename content zip'))"
  by pat_completeness auto
termination
  by (relation "measure (\<lambda>(config, clock, index, rest, zip'). length rest)") auto

definition generateUnitPrintFiles :: "LessonConfig \<Rightarrow> (string \<Rightarrow> Date) \<Rightarrow> jszip \<Rightarrow> jszip" where
  "generateUnitPrintFiles config clock zip' =
     generateUnitPrintFilesFrom config clock 0 (pages config) zip'"

subsection \<open>Static template files\<close>

definition languageRegex1 :: blockRegex where
  "languageRegex1 =
     \<lparr>openMarker = ''<% if (lessonLang === 'ES') { %>'',
      markers = [''<% } else if (lessonLang === 'FR') { %>'', ''<% } else { %>'', ''<% } %>''],
      capturing = False\<rparr>"

definition languageRegex2 :: blockRegex where
  "languageRegex2 =
     \<lparr>openMarker = ''<% if (lessonLang==='ES' ) { %>'',
      markers = [''<% } else if (lessonLang==='FR' ) { %>'', ''<% } else { %>'', ''<% } %>''],
      capturing = False\<rparr>"

text \<open>
  The callback of both language expressions,
  \<open>(_, esContent, frContent, enContent) => { switch (lang) ... }\<close>: its parameters are
  the second to fourth arguments of the call.
\<close>

definition languageCallback :: "string \<Rightarrow> jsvalue list \<Rightarrow> error + string" where
  "languageCallback lang args =
     (let esContent = nthArg args 1;
          frContent = nthArg args 2;
          enContent = nthArg args 3
      in if lang = ''ES'' then callTrim esContent
         else if lang = ''FR'' then callTrim frContent
         else callTrim enContent)"

definition processLanguageConditionals :: "LessonConfig \<Rightarrow> string \<Rightarrow> error + string" where
  "processLanguageConditionals config content =
     (let lang = orElse (language config) ''EN'' in
      case replaceBlocks languageRegex1 (languageCallback lang) content 0 content of
        Inl e \<Rightarrow> Inl e
      | Inr content1 \<Rightarrow> replaceBlocks languageRegex2 (languageCallback lang) content1 0 content1)"

definition templateTypeRegex1 :: blockRegex where
  "templateTypeRegex1 =
     \<lparr>openMarker = ''<% if (templateType==='multi-print' || templateType==='articulate-shell' ) { %>'',
      markers = [''<% } %>''],
      capturing = True\<rparr>"

definition templateTypeRegex2 :: blockRegex where
  "templateTypeRegex2 =
     \<lparr>openMarker = ''<% if (templateType==='articulate-shell' ) { %>'',
      markers = [''<% } else { %>'', ''<% } %>''],
      capturing = True\<rparr>"

definition processTemplateTypeConditionals :: "string \<Rightarrow> error + string" where
  "processTemplateTypeConditionals content =
     (case replaceBlocks templateTypeRegex1 (\<lambda>args. callTrim (nthArg args 1)) content 0 content of
        Inl e \<Rightarrow> Inl e
      | Inr content1 \<Rightarrow>
          replaceBlocks templateTypeRegex2 (\<lambda>args. callTrim (nthArg args 2)) content1 0 content1)"

definition processTemplateVariables :: "LessonConfig \<Rightarrow> Date \<Rightarrow> string \<Rightarrow> error + string" where
  "processTemplateVariables config now content =
     (let variables = getTemplateVariables now config;
          processedContent =
            fold (\<lambda>(key, value) c. replaceVariable key (toString value) [] c) variables content
      in case processLanguageConditionals config processedContent of
           Inl e \<Rightarrow> Inl e
         | Inr processedContent1 \<Rightarrow> processTemplateTypeConditionals processedContent1)"

text \<open>
  \<open>fetch url\<close> is the body of the response, or \<open>None\<close> when the request is rejected or
  the response is not \<open>ok\<close>: in both cases the generator adds no file.
\<close>

definition templatePath :: string where
  "templatePath = ''/src/utils/templates/latest_core_php''"

definition templateFiles :: "string list" where
  "templateFiles =
     [''index.htm'', ''navmenu.php'', ''download.php'', ''media_gallery.php'',
      ''print_sample.php'', ''pageTemplate.php'', ''navmenu.inc.php'',
      ''navmenu.inc_es.php'', ''navmenu.inc_fr.php'']"

definition staticFiles :: "string list" where
  "staticFiles = [''simple_html_dom.php'']"

text \<open>
  One round of the first loop of \<open>processTemplateFiles\<close>. An exception of
  \<open>processTemplateVariables\<close> is caught by the loop body: the file is left out.
\<close>

definition processTemplateFile ::
  "(string \<Rightarrow> string option) \<Rightarrow> LessonConfig \<Rightarrow> (string \<Rightarrow> Date) \<Rightarrow> string \<Rightarrow> jszip \<Rightarrow> jszip" where
  "processTemplateFile fetch config clock filename zip' =
     (case fetch (templatePath @ ''/'' @ filename) of
        None \<Rightarrow> zip'
      | Some content \<Rightarrow>
          (case processTemplateVariables config (clock filename) content of
             Inl e \<Rightarrow> zip'
           | Inr processed \<Rightarrow> zipFile filename processed zip'))"

definition copyStaticFile :: "(string \<Rightarrow> string option) \<Rightarrow> string \<Rightarrow> jszip \<Rightarrow> jszip" where
  "copyStaticFile fetch filename zip' =
     (case fetch (templatePath @ ''/'' @ filename) of
        None \<Rightarrow> zip'
      | Some content \<Rightarrow> zipFile filename content zip')"

text \<open>
  \<open>copyFile\<close> reads the body as text when the target ends in \<open>.css\<close>, \<open>.js\<close> or
  \<open>.php\<close> and as a blob otherwise; either way the body becomes the entry's content.
\<close>

definition copyFile :: "(string \<Rightarrow> string option) \<Rightarrow> jszip \<Rightarrow> string \<Rightarrow> string \<Rightarrow> jszip" where
  "copyFile fetch zip' targetPath sourcePath =
     (case fetch sourcePath of
        None \<Rightarrow> zip'
      | Some content \<Rightarrow> zipFile targetPath content zip')"

definition copyDirectory :: "(string \<Rightarrow> string option) \<Rightarrow> jszip \<Rightarrow> string \<Rightarrow> string \<Rightarrow> jszip" where
  "copyDirectory fetch zip' targetDir sourceDir =
     (if targetDir = ''bootstrap'' then
        copyFile fetch
          (copyFile fetch zip' ''bootstrap/css/bootstrap.min.css'' (sourceDir @ ''/css/bootstrap.min.css''))
          ''bootstrap/js/bootstrap.min.js'' (sourceDir @ ''/js/bootstrap.min.js'')
      else if targetDir = ''css'' then
        copyFile fetch
          (copyFile fetch
            (copyFile fetch zip' ''css/meted-base.min.css'' (sourceDir @ ''/meted-base.min.css''))
            ''css/module-custom.css'' (sourceDir @ ''/module-custom.css''))
          ''css/module-print.css'' (sourceDir @ ''/module-print.css'')
      else if targetDir = ''jquery'' then
        copyFile fetch
          (copyFile fetch
            (copyFile fetch
              (copyFile fetch
                (copyFile fetch
                  (copyFile fetch zip' ''jquery/jquery.min.js'' (sourceDir @ ''/jquery.min.js''))
                  ''jquery/jquery-ui.min.js'' (sourceDir @ ''/jquery-ui.min.js''))
                ''jquery/jquery-ui.min.css'' (sourceDir @ ''/jquery-ui.min.css''))
              ''jquery/jquery-plugins.min.js'' (sourceDir @ ''/jquery-plugins.min.js''))
            ''jquery/apps/apps.css'' (sourceDir @ ''/apps/apps.css''))
          ''jquery/apps/apps.js'' (sourceDir @ ''/apps/apps.js'')
      else if targetDir = ''modernizr'' then
        copyFile fetch zip' ''modernizr/modernizr.min.js'' (sourceDir @ ''/modernizr.min.js'')
      else if targetDir = ''ie-support'' then
        copyFile fetch
          (copyFile fetch
            (copyFile fetch zip' ''ie-support/html5shiv.js'' (sourceDir @ ''/html5shiv.js''))
            ''ie-support/respond.js'' (sourceDir @ ''/respond.js''))
          ''ie-support/ie-support.css'' (sourceDir @ ''/ie-support.css'')
      else zip')"

definition assetDirectories :: "string list" where
  "assetDirectories = [''assets'', ''bootstrap'', ''css'', ''ie-support'', ''jquery'', ''modernizr'']"

definition copyAssetDirectories :: "(string \<Rightarrow> string option) \<Rightarrow> jszip \<Rightarrow> jszip" where
  "copyAssetDirectories fetch zip' =
     fold (\<lambda>dir z. copyDirectory fetch z dir (templatePath @ ''/'' @ dir)) assetDirectories zip'"

definition processTemplateFiles ::
  "(string \<Rightarrow> string option) \<Rightarrow> LessonConfig \<Rightarrow> (string \<Rightarrow> Date) \<Rightarrow> jszip \<Rightarrow> jszip" where
  "processTemplateFiles fetch config clock zip' =
     copyAssetDirectories fetch
       (fold (copyStaticFile fetch) staticFiles
         (fold (processTemplateFile fetch config clock) templateFiles zip'))"

text \<open>
  \<open>generateLesson\<close> up to the serialisation of the archive: the files of a new
  \<open>JSZip\<close> after the template files and the unit print files are added. Serialisation
  and download are the work of \<open>JSZip\<close> and \<open>file-saver\<close>.
\<close>

definition generateLesson ::
  "(string \<Rightarrow> string option) \<Rightarrow> (string \<Rightarrow> Date) \<Rightarrow> LessonConfig \<Rightarrow> jszip" where
  "generateLesson fetch clock config =
     generateUnitPrintFiles config clock (processTemplateFiles fetch config clock [])"

section \<open>The content pages form\<close>

text \<open>
  The state that the handlers of \<open>ContentPagesForm\<close> read and write: \<open>config.pages\<close>,
  which \<open>onChange({ pages })\<close> replaces, and the component's own state variables.
\<close>

record FormState =
  configPages :: "LessonPage list"
  selectedPage :: "string option"
  editingPage :: "string option"
  jsonImportError :: "string option"
  jsonImportSuccess :: bool

text \<open>\<open>{ ...page, children: cs }\<close>.\<close>

fun withChildren :: "LessonPage list \<Rightarrow> LessonPage \<Rightarrow> LessonPage" where
  "withChildren cs (LessonPage i t c d ord ty lvl par ch pg inn) =
     LessonPage i t c d ord ty lvl par cs pg inn"

text \<open>\<open>xs.findIndex(f)\<close>, with \<open>None\<close> for the result -1.\<close>

fun findIndex :: "('a \<Rightarrow> bool) \<Rightarrow> 'a list \<Rightarrow> nat option" where
  "findIndex f [] = None"
| "findIndex f (x # xs) =
     (if f x then Some 0 else (case findIndex f xs of None \<Rightarrow> None | Some i \<Rightarrow> Some (Suc i)))"

text \<open>\<open>xs[i]\<close> for an array of strings: \<open>undefined\<close> out of range.\<close>

definition element :: "string list \<Rightarrow> nat \<Rightarrow> jsvalue" where
  "element xs i = (if i < length xs then Str (xs ! i) else Undefined)"

text \<open>
  The test \<open>if (parentId)\<close> on an optional string: \<open>undefined\<close> and the empty string
  are falsy.
\<close>

definition truthyId :: "string option \<Rightarrow> bool" where
  "truthyId parentId = (case parentId of None \<Rightarrow> False | Some i \<Rightarrow> i \<noteq> [])"

text \<open>
  The block "update parent's children array" shared in shape by both handlers: the first
  page of \<open>updatedPages\<close> with the parent's id gets the children list \<open>f\<close> computes
  from its own.
\<close>

definition updateParent ::
  "string option \<Rightarrow> (LessonPage list \<Rightarrow> LessonPage list) \<Rightarrow> LessonPage list \<Rightarrow> LessonPage list" where
  "updateParent parentId f updatedPages =
     (if truthyId parentId then
        (case findIndex (\<lambda>p. Some (id' p) = parentId) updatedPages of
           None \<Rightarrow> updatedPages
         | Some parentIndex \<Rightarrow>
             updatedPages[parentIndex :=
               withChildren (f (children' (updatedPages ! parentIndex))) (updatedPages ! parentIndex)])
      else updatedPages)"

text \<open>
  \<open>handleAddPage(level, parentId)\<close>; \<open>uuid\<close> is the value that \<open>uuidv4()\<close> returns in
  this call.
\<close>

definition handleAddPage :: "string \<Rightarrow> nat \<Rightarrow> string option \<Rightarrow> FormState \<Rightarrow> FormState" where
  "handleAddPage uuid level parentId state =
     (let pageNumber =
            length (filter (\<lambda>p. level' p = level \<and> parentId' p = parentId) (configPages state)) + 1;
          parentPage =
            (if truthyId parentId then find (\<lambda>p. Some (id' p) = parentId) (configPages state)
             else None);
          pageIdentifier =
            (if level = 1 then numberToString pageNumber @ ''-0-0''
             else if level = 2 then
               (let parentNum =
                      (case parentPage of
                         None \<Rightarrow> Str ''1''
                       | Some parent \<Rightarrow>
                           (case page' parent of
                              None \<Rightarrow> Undefined
                            | Some path \<Rightarrow> element (split CHR ''-'' path) 0))
                in toString parentNum @ ''-'' @ numberToString pageNumber @ ''-0'')
             else if level = 3 then
               (case (case parentPage of
                        None \<Rightarrow> Some [''1'', ''1'']
                      | Some parent \<Rightarrow> map_option (split CHR ''-'') (page' parent)) of
                  None \<Rightarrow> []
                | Some parentNums \<Rightarrow>
                    toString (element parentNums 0) @ ''-'' @ toString (element parentNums 1)
                      @ ''-'' @ numberToString pageNumber)
             else []);
          newPage =
            LessonPage uuid
              ((if level = 1 then ''Page'' else if level = 2 then ''Subpage'' else ''Sub-subpage'')
                 @ '' '' @ numberToString pageNumber)
              ''<p>Add your content here...</p>''
              []
              (length (configPages state) + 1)
              ''content''
              level
              parentId
              []
              (Some pageIdentifier)
              False;
          updatedPages = configPages state @ [newPage]
      in state\<lparr>configPages := updateParent parentId (\<lambda>cs. cs @ [newPage]) updatedPages\<rparr>)"

text \<open>\<open>handleDeletePage(pageId)\<close>.\<close>

definition handleDeletePage :: "string \<Rightarrow> FormState \<Rightarrow> FormState" where
  "handleDeletePage pageId state =
     (case find (\<lambda>p. id' p = pageId) (configPages state) of
        None \<Rightarrow> state
      | Some pageToDelete \<Rightarrow>
          (let updatedPages =
                 filter
                   (\<lambda>page.
                      if id' page = pageId then False
                      else if parentId' page = Some pageId then False
                      else if list_ex (\<lambda>child. id' child = id' page) (children' pageToDelete) then False
                      else True)
                   (configPages state)
           in state
                \<lparr>configPages :=
                   updateParent (parentId' pageToDelete)
                     (filter (\<lambda>child. id' child \<noteq> pageId)) updatedPages,
                 selectedPage := (if selectedPage state = Some pageId then None else selectedPage state),
                 editingPage := (if editingPage state = Some pageId then None else editingPage state)\<rparr>))"

subsection \<open>JSON import\<close>

text \<open>
  An entry of a \<open>menu\<close> array as \<open>convertMenuToPages\<close> sees it. The function reads
  seven properties of an entry: \<open>title\<close>, \<open>content\<close>, \<open>description\<close>, \<open>type\<close>,
  \<open>page\<close>, \<open>innerNode\<close> and \<open>menu\<close>, in this order in \<open>Item\<close>. A property is
  \<open>None\<close> when it is absent; \<open>menu\<close> is \<open>None\<close> as well when it is not an array. The
  properties hold the types of the import format (strings, a boolean, an array of
  entries): a \<open>LessonPage\<close> has no place for a title that is not a string. An entry that
  is a number, a string, a boolean or an array has none of the seven properties and is the
  \<open>Item\<close> with every property absent. The entry \<open>null\<close> is \<open>NullItem\<close>: reading a
  property of \<open>null\<close> throws a TypeError.
\<close>

datatype menuItem =
    NullItem
  | Item "string option" "string option" "string option" "string option" "string option"
      "bool option" "menuItem list option"

text \<open>\<open>item.title || fallback\<close> for an optional string property.\<close>

definition propertyOr :: "string option \<Rightarrow> string \<Rightarrow> string" where
  "propertyOr property fallback = (case property of None \<Rightarrow> fallback | Some s \<Rightarrow> orElse s fallback)"

text \<open>
  \<open>menu.forEach((item, index) => ...)\<close> of \<open>convertMenuToPages(menu, parentId, level)\<close>
  from position \<open>index\<close> on, with the pages it pushes. \<open>uuidv4 k\<close> is the value of the
  \<open>k\<close>-th call of \<open>uuidv4()\<close> during the import and \<open>n\<close> counts the calls made so far.
  The page object is pushed first and receives its \<open>children\<close> afterwards, so the
  pushed page carries them.
\<close>

fun convertMenuFrom ::
  "(nat \<Rightarrow> string) \<Rightarrow> nat \<Rightarrow> menuItem list \<Rightarrow> string option \<Rightarrow> nat \<Rightarrow> nat
     \<Rightarrow> error + (LessonPage list \<times> nat)" where
  "convertMenuFrom uuidv4 n [] parentId level index = Inr ([], n)"
| "convertMenuFrom uuidv4 n (NullItem # rest) parentId level index = Inl TypeError"
| "convertMenuFrom uuidv4 n (Item itemTitle itemContent itemDescription itemType itemPage itemInnerNode itemMenu # rest)
       parentId level index =
     (let pageId = uuidv4 n;
          newPage = (\<lambda>children.
            LessonPage pageId
              (propertyOr itemTitle (''Page '' @ numberToString (index + 1)))
              (propertyOr itemContent ''<p>Add your content here...</p>'')
              (propertyOr itemDescription [])
              (index + 1)
              (propertyOr itemType ''content'')
              level
              parentId
              children
              (Some (propertyOr itemPage (numberToString (index + 1) @ ''-0-0'')))
              (case itemInnerNode of None \<Rightarrow> False | Some b \<Rightarrow> b))
      in case (if itemMenu \<noteq> None \<and> 0 < length (the itemMenu)
               then convertMenuFrom uuidv4 (Suc n) (the itemMenu) (Some pageId) (level + 1) 0
               else Inr ([], Suc n)) of
           Inl e \<Rightarrow> Inl e
         | Inr (children, n1) \<Rightarrow>
             (case convertMenuFrom uuidv4 n1 rest parentId level (Suc index) of
                Inl e \<Rightarrow> Inl e
              | Inr (siblings, n2) \<Rightarrow> Inr (newPage children # children @ siblings, n2)))"

definition convertMenuToPages ::
  "(nat \<Rightarrow> string) \<Rightarrow> nat \<Rightarrow> menuItem list \<Rightarrow> string option \<Rightarrow> nat
     \<Rightarrow> error + (LessonPage list \<times> nat)" where
  "convertMenuToPages uuidv4 n menu parentId level = convertMenuFrom uuidv4 n menu parentId level 0"

text \<open>
  The value of \<open>JSON.parse\<close> as \<open>handleJsonImport\<close> sees it: \<open>null\<close>, or any other
  value with its \<open>menu\<close> property when that is an array.
\<close>

datatype jsonDocument = NullDocument | Document "menuItem list option"

text \<open>
  \<open>handleJsonImport\<close>, from the file of the event to the state after \<open>reader.onload\<close>.
  \<open>file\<close> is the text of the chosen file, \<open>None\<close> when no file was chosen;
  \<open>JSON_parse\<close> is \<open>None\<close> where \<open>JSON.parse\<close> throws. Every exception inside the
  \<open>try\<close> block ends in its \<open>catch\<close>. The timer that clears the success flag after
  three seconds is not modelled.
\<close>

definition invalidFileMessage :: string where
  "invalidFileMessage = ''Invalid JSON file. Please check the format.''"

definition invalidStructureMessage :: string where
  \<open>invalidStructureMessage = ''Invalid JSON structure. Expected a "menu" array.''\<close>

definition handleJsonImport ::
  "(string \<Rightarrow> jsonDocument option) \<Rightarrow> (nat \<Rightarrow> string) \<Rightarrow> string option \<Rightarrow> FormState \<Rightarrow> FormState" where
  "handleJsonImport JSON_parse uuidv4 file state =
     (case file of
        None \<Rightarrow> state
      | Some jsonText \<Rightarrow>
          (case JSON_parse jsonText of
             None \<Rightarrow> state\<lparr>jsonImportError := Some invalidFileMessage\<rparr>
           | Some NullDocument \<Rightarrow> state\<lparr>jsonImportError := Some invalidFileMessage\<rparr>
           | Some (Document None) \<Rightarrow> state\<lparr>jsonImportError := Some invalidStructureMessage\<rparr>
           | Some (Document (Some menu)) \<Rightarrow>
               (case convertMenuToPages uuidv4 0 menu None 1 of
                  Inl e \<Rightarrow> state\<lparr>jsonImportError := Some invalidFileMessage\<rparr>
                | Inr (convertedPages, n) \<Rightarrow>
                    state\<lparr>configPages := convertedPages,
                          jsonImportSuccess := True,
                          jsonImportError := None\<rparr>)))"

section \<open>Vocabulary of the properties\<close>

text \<open>The name \<open>print_<k>.php\<close> of the unit print file number \<open>k\<close>.\<close>

definition unitPrintName :: "nat \<Rightarrow> string" where
  "unitPrintName k = ''print_'' @ numberToString k @ ''.php''"

text \<open>An archive whose paths are distinct and hold no unit print file.\<close>

definition staticArchive :: "jszip \<Rightarrow> bool" where
  "staticArchive z = (distinct (map fst z) \<and> (\<forall>k. unitPrintName k \<notin> set (map fst z)))"

text \<open>The inner \<open>menu\<close> array of an entry, empty when the entry has none.\<close>

fun innerMenu :: "menuItem \<Rightarrow> menuItem list" where
  "innerMenu NullItem = []"
| "innerMenu (Item itemTitle itemContent itemDescription itemType itemPage itemInnerNode itemMenu) =
     (case itemMenu of None \<Rightarrow> [] | Some entries \<Rightarrow> entries)"

text \<open>
  A well-formed two-level menu: no entry of the outer array and none of an inner array
  is \<open>null\<close>, and the entries of the inner arrays have no entries of their own.
\<close>

definition wellFormedTwoLevel :: "menuItem list \<Rightarrow> bool" where
  "wellFormedTwoLevel menu =
     list_all
       (\<lambda>item. item \<noteq> NullItem
          \<and> list_all (\<lambda>inner. inner \<noteq> NullItem \<and> innerMenu inner = []) (innerMenu item))
       menu"

text \<open>An entry that is \<open>null\<close> or has a \<open>null\<close> among the entries below it.\<close>

fun hasNullEntry :: "menuItem \<Rightarrow> bool" where
  "hasNullEntry NullItem = True"
| "hasNullEntry (Item itemTitle itemContent itemDescription itemType itemPage itemInnerNode itemMenu) =
     (case itemMenu of None \<Rightarrow> False | Some entries \<Rightarrow> list_ex hasNullEntry entries)"

text \<open>A parsed document without an array field \<open>menu\<close>, and the entries of that array.\<close>

fun lacksMenuArray :: "jsonDocument \<Rightarrow> bool" where
  "lacksMenuArray NullDocument = True"
| "lacksMenuArray (Document None) = True"
| "lacksMenuArray (Document (Some menu)) = False"

fun menuEntries :: "jsonDocument \<Rightarrow> menuItem list" where
  "menuEntries NullDocument = []"
| "menuEntries (Document None) = []"
| "menuEntries (Document (Some menu)) = menu"

text \<open>The import failed: the form shows an import error.\<close>

definition importFailed :: "FormState \<Rightarrow> bool" where
  "importFailed state = (jsonImportError state \<noteq> None)"

text \<open>
  The vocabulary of the determinism property. A digit is one of the code units \<open>0\<close> to
  \<open>9\<close>; the text of a calendar year is a non-empty string of digits; a marker is a
  non-empty string without digits, as the literal parts of the generator's expressions
  are.
\<close>

definition isDigit :: "char \<Rightarrow> bool" where
  "isDigit c = (48 \<le> (of_char c :: nat) \<and> (of_char c :: nat) \<le> 57)"

definition yearText :: "string \<Rightarrow> bool" where
  "yearText y = (y \<noteq> [] \<and> list_all isDigit y)"

definition marker :: "string \<Rightarrow> bool" where
  "marker m = (m \<noteq> [] \<and> list_all (\<lambda>c. \<not> isDigit c) m)"

text \<open>
  \<open>sameUpTo y1 y2 s1 s2\<close>: the texts \<open>s1\<close> and \<open>s2\<close> are the same, code unit by code
  unit, except at places where \<open>s1\<close> has the text \<open>y1\<close> and \<open>s2\<close> has the text \<open>y2\<close>.
  For \<open>y1 = y2\<close> it is equality.
\<close>

inductive sameUpTo :: "string \<Rightarrow> string \<Rightarrow> string \<Rightarrow> string \<Rightarrow> bool" for y1 y2 where
  empty: "sameUpTo y1 y2 [] []"
| same: "sameUpTo y1 y2 s1 s2 \<Longrightarrow> sameUpTo y1 y2 (c # s1) (c # s2)"
| year: "sameUpTo y1 y2 s1 s2 \<Longrightarrow> sameUpTo y1 y2 (y1 @ s1) (y2 @ s2)"

text \<open>
  The same for the arguments of a replacer callback: strings are the same up to the years,
  and the offsets of two matches need not agree.
\<close>

fun sameValueUpTo :: "string \<Rightarrow> string \<Rightarrow> jsvalue \<Rightarrow> jsvalue \<Rightarrow> bool" where
  "sameValueUpTo y1 y2 (Str a) (Str b) = sameUpTo y1 y2 a b"
| "sameValueUpTo y1 y2 (Num a) (Num b) = True"
| "sameValueUpTo y1 y2 Undefined Undefined = True"
| "sameValueUpTo y1 y2 a b = False"

text \<open>The text of the year that the clock returns while the file \<open>filename\<close> is produced.\<close>

definition yearRead :: "(string \<Rightarrow> Date) \<Rightarrow> string \<Rightarrow> string" where
  "yearRead clock filename = numberToString (getFullYear (clock filename))"

text \<open>
  Two archives hold the same paths in the same order, and at each path the two contents
  are the same up to the years that belong to that path.
\<close>

definition sameFilesUpToYear :: "(string \<Rightarrow> string) \<Rightarrow> (string \<Rightarrow> string) \<Rightarrow> jszip \<Rightarrow> jszip \<Rightarrow> bool" where
  "sameFilesUpToYear year1 year2 z1 z2 =
     list_all2 (\<lambda>(name1, content1) (name2, content2).
        name1 = name2 \<and> sameUpTo (year1 name1) (year2 name1) content1 content2) z1 z2"

section \<open>Example inputs\<close>

definition exampleDate :: Date where
  "exampleDate = \<lparr>fullYear = 2026, monthIndex = 10, dayOfMonth = 3, millisecondOfDay = 0\<rparr>"

definition laterThatYear :: Date where
  "laterThatYear = \<lparr>fullYear = 2026, monthIndex = 11, dayOfMonth = 31, millisecondOfDay = 86399999\<rparr>"

text \<open>The first instant of the following year.\<close>

definition nextYear :: Date where
  "nextYear = \<lparr>fullYear = 2027, monthIndex = 0, dayOfMonth = 1, millisecondOfDay = 0\<rparr>"

definition emptyConfig :: LessonConfig where
  "emptyConfig =
     \<lparr>language = [], lessonTitle = [], lessonId = [], metedPath = [], description = [],
      keywords' = [], customCopyrightYear = None, customCoverImageCredit = None,
      templateType = latest_core_legacy_standard, useBootstrap = True, pages = []\<rparr>"

text \<open>A configuration with one top-level page and one page of level 2 below it.\<close>

definition subPage :: LessonPage where
  "subPage =
     LessonPage ''b'' ''Tides'' ''<p>More authored text</p>'' [] 2 ''content'' 2 (Some ''a'') []
       (Some ''1-1-0'') False"

definition unitPage :: LessonPage where
  "unitPage =
     LessonPage ''a'' ''Storm Surge'' ''<p>Authored text</p>'' [] 1 ''content'' 1 None [subPage]
       (Some ''1-0-0'') False"

definition twoLevelConfig :: LessonConfig where
  "twoLevelConfig =
     \<lparr>language = ''English'', lessonTitle = ''Storm Surge Basics'', lessonId = ''1234'',
      metedPath = [], description = [], keywords' = [], customCopyrightYear = Some ''1999'',
      customCoverImageCredit = None, templateType = latest_core_legacy_standard,
      useBootstrap = True, pages = [unitPage, subPage]\<rparr>"

text \<open>A page whose title holds markup, and the two-level configuration in Spanish and in French.\<close>

definition markupPage :: LessonPage where
  "markupPage =
     LessonPage ''m'' ''<b>Tides & Surge</b>'' ''<p>Authored text</p>'' [] 1 ''content'' 1 None []
       (Some ''1-0-0'') False"

definition spanishConfig :: LessonConfig where
  "spanishConfig = twoLevelConfig\<lparr>language := ''ES''\<rparr>"

definition frenchConfig :: LessonConfig where
  "frenchConfig = twoLevelConfig\<lparr>language := ''FR''\<rparr>"

text \<open>A server that answers no request.\<close>

definition noFetch :: "string \<Rightarrow> string option" where
  "noFetch url = None"

text \<open>A server that answers every request with a small template naming the address.\<close>

definition templateServer :: "string \<Rightarrow> string option" where
  "templateServer url = Some (''<title><%= lessonTitle %></title><p>&copy; <%= copyrightYear %> '' @ url @ ''</p>'')"

definition emptyForm :: FormState where
  "emptyForm =
     \<lparr>configPages = [], selectedPage = None, editingPage = None, jsonImportError = None,
      jsonImportSuccess = False\<rparr>"

text \<open>The form after a page, a subpage of it and a sub-subpage of that are added.\<close>

definition threeLevelForm :: FormState where
  "threeLevelForm =
     handleAddPage ''c'' 3 (Some ''b'')
       (handleAddPage ''b'' 2 (Some ''a'')
         (handleAddPage ''a'' 1 None emptyForm))"

definition languageBlock :: string where
  "languageBlock =
     ''<% if (lessonLang === 'ES') { %>Hola<% } else if (lessonLang === 'FR') { %>Bonjour<% } else { %>Hello<% } %>''"

text \<open>
  The menu \<open>[{"title": "A", "menu": [{}, {"title": "A2"}]}, {}]\<close> and a source of
  identifiers.
\<close>

definition exampleMenu :: "menuItem list" where
  "exampleMenu =
     [Item (Some ''A'') None None None None None
        (Some [Item None None None None None None None,
               Item (Some ''A2'') None None None None None None]),
      Item None None None None None None None]"

definition exampleUuid :: "nat \<Rightarrow> string" where
  "exampleUuid k = ''id-'' @ numberToString k"

section \<open>Properties of the generator\<close>

subsection \<open>Decimal rendering\<close>

lemma digitChar_code: "d < 10 \<Longrightarrow> of_char (digitChar d) = 48 + d"
  by (simp add: digitChar_def)

lemma digitChar_inj: "a < 10 \<Longrightarrow> b < 10 \<Longrightarrow> digitChar a = digitChar b \<Longrightarrow> a = b"
  by (metis digitChar_code add_left_cancel)

lemma numberToString_not_Nil: "numberToString n \<noteq> []"
  by (subst numberToString.simps) simp

lemma numberToString_digits:
  "c \<in> set (numberToString n) \<Longrightarrow> \<exists>d<10. c = digitChar d"
proof (induction n rule: numberToString.induct)
  case (1 n)
  show ?case
  proof (cases "n < 10")
    case True
    with 1(2) show ?thesis by (subst (asm) numberToString.simps) auto
  next
    case False
    from 1(2) have "c \<in> set (numberToString (n div 10)) \<or> c = digitChar (n mod 10)"
      using False by (subst (asm) numberToString.simps) auto
    with 1(1) [OF False] show ?thesis
      by (metis mod_less_divisor zero_less_numeral)
  qed
qed

lemma numberToString_inj: "numberToString a = numberToString b \<Longrightarrow> a = b"
proof (induction a arbitrary: b rule: numberToString.induct)
  case (1 a)
  show ?case
  proof (cases "a < 10")
    case True
    show ?thesis
    proof (cases "b < 10")
      case b: True
      from 1(2) True b have "digitChar a = digitChar b"
        by (simp add: numberToString.simps [of a] numberToString.simps [of b])
      with True b show ?thesis by (blast intro: digitChar_inj)
    next
      case b: False
      from 1(2) True b have "[digitChar a] = numberToString (b div 10) @ [digitChar (b mod 10)]"
        by (simp add: numberToString.simps [of a] numberToString.simps [of b])
      then have "numberToString (b div 10) = []" by simp
      then show ?thesis by (simp add: numberToString_not_Nil)
    qed
  next
    case False
    show ?thesis
    proof (cases "b < 10")
      case b: True
      from 1(2) False b have "numberToString (a div 10) @ [digitChar (a mod 10)] = [digitChar b]"
        by (simp add: numberToString.simps [of a] numberToString.simps [of b])
      then have "numberToString (a div 10) = []" by simp
      then show ?thesis by (simp add: numberToString_not_Nil)
    next
      case b: False
      from 1(2) False b have "numberToString (a div 10) @ [digitChar (a mod 10)]
          = numberToString (b div 10) @ [digitChar (b mod 10)]"
        by (simp add: numberToString.simps [of a] numberToString.simps [of b])
      then have eq: "numberToString (a div 10) = numberToString (b div 10)"
        and d: "digitChar (a mod 10) = digitChar (b mod 10)" by simp_all
      from 1(1) [OF False eq] have "a div 10 = b div 10" .
      moreover from d have "a mod 10 = b mod 10"
        by (intro digitChar_inj) simp_all
      ultimately show ?thesis by (metis div_mult_mod_eq)
    qed
  qed
qed

lemma unitPrintName_inj: "unitPrintName a = unitPrintName b \<Longrightarrow> a = b"
  by (simp add: unitPrintName_def numberToString_inj)

lemma sample_not_number: "numberToString k \<noteq> ''sample''"
proof
  assume "numberToString k = ''sample''"
  then have "CHR ''s'' \<in> set (numberToString k)" by simp
  then obtain d where "d < 10" "CHR ''s'' = digitChar d"
    using numberToString_digits by blast
  then have "of_char (CHR ''s'') = 48 + d" by (simp add: digitChar_code)
  with \<open>d < 10\<close> show False by simp
qed

lemma print_sample_not_unit: "''print_sample.php'' \<noteq> unitPrintName k"
  using sample_not_number [of k] by (auto simp: unitPrintName_def)

lemma numberToString_2026: "numberToString 2026 = ''2026''"
  by code_simp

lemma unitPrintName_2: "unitPrintName 2 = ''print_2.php''"
  by code_simp

subsection \<open>Template variables\<close>

text \<open>
  The resolver returns its nine variables for every configuration, with
  \<open>Untitled Lesson\<close> for an empty title, the generic description for an empty
  description and the generic keywords for an empty keyword field. The copyright year is
  the number \<open>getFullYear\<close> returns: no field of the configuration enters it.
\<close>

lemma getTemplateVariables_fallbacks:
  "(lessonTitle config = [] \<longrightarrow>
      lookupVar (getTemplateVariables now config) ''lessonTitle'' = Str ''Untitled Lesson'')
   \<and> (description config = [] \<longrightarrow>
      lookupVar (getTemplateVariables now config) ''lessonDesc''
        = Str ''MetEd lesson created with the lesson generator'')
   \<and> (keywords' config = [] \<longrightarrow>
      lookupVar (getTemplateVariables now config) ''lessonKeys''
        = Str ''meteorology, education, training'')
   \<and> lookupVar (getTemplateVariables now config) ''copyrightYear'' = Num (getFullYear now)
   \<and> map fst (getTemplateVariables now config)
       = [''lessonTitle'', ''lessonDesc'', ''lessonKeys'', ''lessonID'', ''lessonPath'',
          ''copyrightYear'', ''splashImageCredit'', ''lessonLang'', ''templateType'']"
  by (simp add: getTemplateVariables_def lookupVar_def orElse_def Let_def)

subsection \<open>Conditional blocks\<close>

text \<open>
  C2, at a template that is one language block and at the same block inside a paragraph.
  For the language \<open>FR\<close> each block is replaced by the whole template text, markers and
  all three branches included; for \<open>ES\<close> and for every other language the substitution
  throws, and the template file is left out of the archive.
\<close>

theorem language_block_not_resolved:
  "processLanguageConditionals (emptyConfig\<lparr>language := ''FR''\<rparr>) languageBlock = Inr languageBlock
   \<and> processLanguageConditionals (emptyConfig\<lparr>language := ''FR''\<rparr>) (''<p>'' @ languageBlock @ ''</p>'')
       = Inr (''<p>'' @ ''<p>'' @ languageBlock @ ''</p>'' @ ''</p>'')
   \<and> processLanguageConditionals (emptyConfig\<lparr>language := ''ES''\<rparr>) languageBlock = Inl TypeError
   \<and> processLanguageConditionals emptyConfig languageBlock = Inl TypeError
   \<and> processTemplateFile (\<lambda>url. Some languageBlock) emptyConfig (\<lambda>f. exampleDate) ''index.htm'' [] = []"
  by code_simp

text \<open>
  The template-type expressions are written with capture groups: there the callback
  receives the branches, and the block is replaced by the trimmed branch.
\<close>

lemma template_type_blocks_resolved:
  "processTemplateTypeConditionals
     ''x<% if (templateType==='articulate-shell' ) { %> A <% } else { %> B <% } %>y<% if (templateType==='multi-print' || templateType==='articulate-shell' ) { %>  C <% } %>z''
   = Inr ''xByCz''"
  by code_simp

subsection \<open>Unit print files\<close>

lemma zipFile_keys:
  "map fst (zipFile name c z) = (if name \<in> set (map fst z) then map fst z else map fst z @ [name])"
proof (induction z)
  case Nil
  then show ?case by simp
next
  case (Cons entry z)
  obtain n c' where "entry = (n, c')" by (cases entry)
  with Cons show ?case by auto
qed

lemma zipFile_map_of: "map_of (zipFile name c z) = (map_of z)(name \<mapsto> c)"
  by (induction z) (auto simp: fun_eq_iff)

lemma staticArchive_zipFile:
  "staticArchive z \<Longrightarrow> \<forall>k. name \<noteq> unitPrintName k \<Longrightarrow> staticArchive (zipFile name c z)"
  by (auto simp: staticArchive_def zipFile_keys)

lemma not_unit_by_prefix: "\<not> prefix ''print_'' name \<Longrightarrow> \<forall>k. name \<noteq> unitPrintName k"
  by (auto simp: unitPrintName_def)

lemma templateFiles_not_unit: "name \<in> set templateFiles \<Longrightarrow> \<forall>k. name \<noteq> unitPrintName k"
proof -
  assume "name \<in> set templateFiles"
  then consider "name = ''print_sample.php''" | "\<not> prefix ''print_'' name"
    unfolding templateFiles_def by auto
  then show ?thesis
  proof cases
    case 1
    then show ?thesis using print_sample_not_unit by simp
  next
    case 2
    then show ?thesis by (rule not_unit_by_prefix)
  qed
qed

lemma staticFiles_not_unit: "name \<in> set staticFiles \<Longrightarrow> \<forall>k. name \<noteq> unitPrintName k"
  by (rule not_unit_by_prefix) (auto simp: staticFiles_def)

lemma staticArchive_processTemplateFile:
  "staticArchive z \<Longrightarrow> name \<in> set templateFiles \<Longrightarrow>
   staticArchive (processTemplateFile fetch config clock name z)"
  unfolding processTemplateFile_def
  by (simp add: staticArchive_zipFile templateFiles_not_unit split: option.splits sum.splits)

lemma staticArchive_fold:
  "staticArchive z \<Longrightarrow> (\<And>name z. name \<in> set names \<Longrightarrow> staticArchive z \<Longrightarrow> staticArchive (f name z)) \<Longrightarrow>
   staticArchive (fold f names z)"
  by (induction names arbitrary: z) auto

lemma staticArchive_copyStaticFile:
  "staticArchive z \<Longrightarrow> name \<in> set staticFiles \<Longrightarrow> staticArchive (copyStaticFile fetch name z)"
  unfolding copyStaticFile_def
  by (simp add: staticArchive_zipFile staticFiles_not_unit split: option.splits)

lemma staticArchive_copyFile:
  "staticArchive z \<Longrightarrow> \<not> prefix ''print_'' target \<Longrightarrow> staticArchive (copyFile fetch z target source)"
  unfolding copyFile_def
  by (simp add: staticArchive_zipFile not_unit_by_prefix split: option.splits)

lemma staticArchive_copyDirectory:
  "staticArchive z \<Longrightarrow> staticArchive (copyDirectory fetch z targetDir sourceDir)"
  unfolding copyDirectory_def
  by (simp add: staticArchive_copyFile)

lemma staticArchive_copyAssetDirectories:
  "staticArchive z \<Longrightarrow> staticArchive (copyAssetDirectories fetch z)"
  unfolding copyAssetDirectories_def
  by (rule staticArchive_fold) (simp_all add: staticArchive_copyDirectory)

lemma staticArchive_processTemplateFiles:
  "staticArchive (processTemplateFiles fetch config clock [])"
proof -
  have 0: "staticArchive []" by (simp add: staticArchive_def)
  have 1: "staticArchive (fold (processTemplateFile fetch config clock) templateFiles [])"
    by (rule staticArchive_fold [OF 0]) (rule staticArchive_processTemplateFile)
  have 2: "staticArchive (fold (copyStaticFile fetch) staticFiles
      (fold (processTemplateFile fetch config clock) templateFiles []))"
    by (rule staticArchive_fold [OF 1]) (rule staticArchive_copyStaticFile)
  show ?thesis
    unfolding processTemplateFiles_def by (rule staticArchive_copyAssetDirectories [OF 2])
qed

lemma generateUnitPrintFilesFrom_Cons:
  "generateUnitPrintFilesFrom config clock index (p # ps) z
     = generateUnitPrintFilesFrom config clock (Suc index) ps
         (zipFile (unitPrintName (Suc index))
            (generateUnitPrintContent config (clock (unitPrintName (Suc index))) p (Suc index)) z)"
  by (simp add: Let_def unitPrintName_def)

lemma generateUnitPrintFilesFrom_keys:
  "distinct (map fst z) \<Longrightarrow> \<forall>k>index. unitPrintName k \<notin> set (map fst z) \<Longrightarrow>
   map fst (generateUnitPrintFilesFrom config clock index ps z)
     = map fst z @ map unitPrintName [Suc index ..< Suc index + length ps]"
proof (induction ps arbitrary: index z)
  case Nil
  then show ?case by simp
next
  case (Cons p ps)
  let ?name = "unitPrintName (Suc index)"
  let ?z = "zipFile ?name (generateUnitPrintContent config (clock ?name) p (Suc index)) z"
  from Cons.prems have keys: "map fst ?z = map fst z @ [?name]"
    by (simp add: zipFile_keys)
  with Cons.prems have d: "distinct (map fst ?z)" by simp
  from Cons.prems keys have fresh: "\<forall>k>Suc index. unitPrintName k \<notin> set (map fst ?z)"
    by (auto dest: unitPrintName_inj)
  have "generateUnitPrintFilesFrom config clock index (p # ps) z
      = generateUnitPrintFilesFrom config clock (Suc index) ps ?z"
    by (rule generateUnitPrintFilesFrom_Cons)
  moreover have "[Suc index ..< Suc index + length (p # ps)]
      = Suc index # [Suc (Suc index) ..< Suc (Suc index) + length ps]"
    by (subst upt_rec) simp
  ultimately show ?case
    using Cons.IH [OF d fresh] keys by (simp del: generateUnitPrintFilesFrom.simps)
qed

lemma generateUnitPrintFilesFrom_other:
  "\<forall>k. Suc index \<le> k \<and> k \<le> index + length ps \<longrightarrow> name \<noteq> unitPrintName k \<Longrightarrow>
   map_of (generateUnitPrintFilesFrom config clock index ps z) name = map_of z name"
proof (induction ps arbitrary: index z)
  case Nil
  then show ?case by simp
next
  case (Cons p ps)
  let ?name = "unitPrintName (Suc index)"
  let ?z = "zipFile ?name (generateUnitPrintContent config (clock ?name) p (Suc index)) z"
  have step: "generateUnitPrintFilesFrom config clock index (p # ps) z
      = generateUnitPrintFilesFrom config clock (Suc index) ps ?z"
    by (rule generateUnitPrintFilesFrom_Cons)
  from Cons.prems have "\<forall>k. Suc (Suc index) \<le> k \<and> k \<le> Suc index + length ps \<longrightarrow> name \<noteq> unitPrintName k"
    by simp
  from Cons.IH [OF this] have "map_of (generateUnitPrintFilesFrom config clock (Suc index) ps ?z) name
      = map_of ?z name" .
  moreover from Cons.prems have "name \<noteq> ?name" by simp
  ultimately show ?case by (simp add: step zipFile_map_of del: generateUnitPrintFilesFrom.simps)
qed

lemma generateUnitPrintFilesFrom_content:
  "j < length ps \<Longrightarrow>
   map_of (generateUnitPrintFilesFrom config clock index ps z) (unitPrintName (Suc index + j))
     = Some (generateUnitPrintContent config (clock (unitPrintName (Suc index + j))) (ps ! j) (Suc index + j))"
proof (induction ps arbitrary: index z j)
  case Nil
  then show ?case by simp
next
  case (Cons p ps)
  let ?name = "unitPrintName (Suc index)"
  let ?z = "zipFile ?name (generateUnitPrintContent config (clock ?name) p (Suc index)) z"
  have step: "generateUnitPrintFilesFrom config clock index (p # ps) z
      = generateUnitPrintFilesFrom config clock (Suc index) ps ?z"
    by (rule generateUnitPrintFilesFrom_Cons)
  show ?case
  proof (cases j)
    case 0
    have "\<forall>k. Suc (Suc index) \<le> k \<and> k \<le> Suc index + length ps \<longrightarrow> ?name \<noteq> unitPrintName k"
      by (auto dest: unitPrintName_inj)
    from generateUnitPrintFilesFrom_other [OF this]
    have "map_of (generateUnitPrintFilesFrom config clock (Suc index) ps ?z) ?name = map_of ?z ?name" .
    with 0 show ?thesis by (simp add: step zipFile_map_of del: generateUnitPrintFilesFrom.simps)
  next
    case (Suc i)
    with Cons.prems have "i < length ps" by simp
    from Cons.IH [OF this, of "Suc index" ?z] Suc show ?thesis
      by (simp add: step del: generateUnitPrintFilesFrom.simps)
  qed
qed


lemma generateLesson_keys:
  "map fst (generateLesson fetch clock config)
     = map fst (processTemplateFiles fetch config clock [])
         @ map unitPrintName [Suc 0 ..< Suc 0 + length (pages config)]"
proof -
  have "staticArchive (processTemplateFiles fetch config clock [])"
    by (rule staticArchive_processTemplateFiles)
  then have "distinct (map fst (processTemplateFiles fetch config clock []))"
    and "\<forall>k>0. unitPrintName k \<notin> set (map fst (processTemplateFiles fetch config clock []))"
    by (simp_all add: staticArchive_def)
  then show ?thesis
    unfolding generateLesson_def generateUnitPrintFiles_def
    by (rule generateUnitPrintFilesFrom_keys)
qed

lemma generateLesson_content:
  "k < length (pages config) \<Longrightarrow>
   map_of (generateLesson fetch clock config) (unitPrintName (Suc k))
     = Some (generateUnitPrintContent config (clock (unitPrintName (Suc k))) (pages config ! k) (Suc k))"
  unfolding generateLesson_def generateUnitPrintFiles_def
  using generateUnitPrintFilesFrom_content
    [of k "pages config" config clock 0 "processTemplateFiles fetch config clock []"]
  by simp

text \<open>
  C1, amended. For every configuration whose page collection holds N pages, of whatever
  level, the archive holds exactly the unit print files \<open>print_k.php\<close> for k from 1 to N,
  each path once, and the file \<open>print_k.php\<close> is generated from the k-th page of the
  collection with unit number k: the numbering is by position in the collection, not by
  page identifier and not by position among the top-level pages.
\<close>

theorem unit_print_files_by_position:
  "distinct (map fst (generateLesson fetch clock config))
   \<and> (\<forall>k. unitPrintName k \<in> set (map fst (generateLesson fetch clock config))
          \<longleftrightarrow> 1 \<le> k \<and> k \<le> length (pages config))
   \<and> (\<forall>k<length (pages config).
        map_of (generateLesson fetch clock config) (unitPrintName (Suc k))
          = Some (generateUnitPrintContent config (clock (unitPrintName (Suc k))) (pages config ! k) (Suc k)))"
proof -
  let ?static = "processTemplateFiles fetch config clock []"
  have static: "staticArchive ?static" by (rule staticArchive_processTemplateFiles)
  then have d: "distinct (map fst ?static)" and fresh: "\<forall>k. unitPrintName k \<notin> set (map fst ?static)"
    by (simp_all add: staticArchive_def)
  note keys = generateLesson_keys [of fetch clock config]
  let ?units = "map unitPrintName [Suc 0 ..< Suc 0 + length (pages config)]"
  have units: "distinct ?units"
    by (auto simp: distinct_map inj_on_def dest: unitPrintName_inj)
  have disjoint: "set (map fst ?static) \<inter> set ?units = {}"
  proof -
    have False if "x \<in> set (map fst ?static)" and "x \<in> set ?units" for x
    proof -
      from that(2) obtain k where "x = unitPrintName k" by auto
      with fresh that(1) show False by blast
    qed
    then show ?thesis by blast
  qed
  have c1: "distinct (map fst (generateLesson fetch clock config))"
    unfolding keys using d units disjoint by (simp only: distinct_append simp_thms)
  have member: "unitPrintName k \<in> set ?units \<longleftrightarrow> 1 \<le> k \<and> k \<le> length (pages config)" for k
    by (auto dest: unitPrintName_inj)
  have c2: "\<forall>k. unitPrintName k \<in> set (map fst (generateLesson fetch clock config))
          \<longleftrightarrow> 1 \<le> k \<and> k \<le> length (pages config)"
  proof
    fix k
    have "unitPrintName k \<in> set (map fst (generateLesson fetch clock config))
        \<longleftrightarrow> unitPrintName k \<in> set (map fst ?static) \<or> unitPrintName k \<in> set ?units"
      unfolding keys by (simp only: set_append Un_iff)
    with fresh member [of k]
    show "unitPrintName k \<in> set (map fst (generateLesson fetch clock config))
        \<longleftrightarrow> 1 \<le> k \<and> k \<le> length (pages config)"
      by blast
  qed
  have c3: "\<forall>k<length (pages config).
        map_of (generateLesson fetch clock config) (unitPrintName (Suc k))
          = Some (generateUnitPrintContent config (clock (unitPrintName (Suc k))) (pages config ! k) (Suc k))"
    by (simp add: generateLesson_content)
  from c1 c2 c3 show ?thesis by blast
qed

text \<open>
  The theorem at the configuration with one top-level page and one page of level 2, on a
  server that answers no request: two unit print files, the first from the first page.
\<close>

theorem unit_print_files_witness:
  "distinct (map fst (generateLesson noFetch (\<lambda>f. exampleDate) twoLevelConfig))
   \<and> unitPrintName 1 \<in> set (map fst (generateLesson noFetch (\<lambda>f. exampleDate) twoLevelConfig))
   \<and> unitPrintName 3 \<notin> set (map fst (generateLesson noFetch (\<lambda>f. exampleDate) twoLevelConfig))
   \<and> map_of (generateLesson noFetch (\<lambda>f. exampleDate) twoLevelConfig) (unitPrintName 1)
       = Some (generateUnitPrintContent twoLevelConfig exampleDate unitPage 1)"
proof -
  note t = unit_print_files_by_position [of noFetch "\<lambda>f. exampleDate" twoLevelConfig]
  have len: "length (pages twoLevelConfig) = 2" and first: "pages twoLevelConfig ! 0 = unitPage"
    by (simp_all add: twoLevelConfig_def)
  from t have a: "distinct (map fst (generateLesson noFetch (\<lambda>f. exampleDate) twoLevelConfig))"
    by blast
  from t have b: "unitPrintName k \<in> set (map fst (generateLesson noFetch (\<lambda>f. exampleDate) twoLevelConfig))
      \<longleftrightarrow> 1 \<le> k \<and> k \<le> length (pages twoLevelConfig)" for k
    by blast
  from t have c: "k < length (pages twoLevelConfig) \<Longrightarrow>
      map_of (generateLesson noFetch (\<lambda>f. exampleDate) twoLevelConfig) (unitPrintName (Suc k))
        = Some (generateUnitPrintContent twoLevelConfig exampleDate (pages twoLevelConfig ! k) (Suc k))" for k
    by blast
  from a b [of 1] b [of 3] c [of 0] len first show ?thesis by simp
qed

text \<open>
  C1 as stated fails: the configuration has one top-level page, and its archive holds a
  second unit print file, \<open>print_2.php\<close>, generated from the page of level 2.
\<close>

theorem unit_print_files_counterexample:
  "length (filter (\<lambda>p. level' p = 1) (pages twoLevelConfig)) = 1
   \<and> level' subPage = 2
   \<and> map_of (generateLesson noFetch (\<lambda>f. exampleDate) twoLevelConfig) ''print_2.php''
       = Some (generateUnitPrintContent twoLevelConfig exampleDate subPage 2)"
proof -
  have levels: "length (filter (\<lambda>p. level' p = 1) (pages twoLevelConfig)) = 1" "level' subPage = 2"
    by (simp_all add: twoLevelConfig_def unitPage_def subPage_def)
  have second: "pages twoLevelConfig ! 1 = subPage" and two: "Suc 1 = 2"
    by (simp_all add: twoLevelConfig_def)
  have "map_of (generateLesson noFetch (\<lambda>f. exampleDate) twoLevelConfig) (unitPrintName (Suc 1))
       = Some (generateUnitPrintContent twoLevelConfig exampleDate (pages twoLevelConfig ! 1) (Suc 1))"
    by (rule generateLesson_content) (simp add: twoLevelConfig_def)
  then have "map_of (generateLesson noFetch (\<lambda>f. exampleDate) twoLevelConfig) ''print_2.php''
       = Some (generateUnitPrintContent twoLevelConfig exampleDate subPage 2)"
    unfolding second two unitPrintName_2 .
  with levels show ?thesis by (intro conjI)
qed

subsection \<open>The unit print page\<close>

lemma sublist_skip: "sublist xs ys \<Longrightarrow> sublist xs (ps @ ys)"
  by (metis append.assoc sublist_def)

lemma copyrightYear_value:
  "toString (lookupVar (getTemplateVariables now config) ''copyrightYear'') = numberToString (getFullYear now)"
  by (simp add: getTemplateVariables_def lookupVar_def)

lemma unit_print_heading:
  \<open>sublist (''<h3>'' @ title' page @ ''</h3>'') (generateUnitPrintContent config now page unitNumber)\<close>
  unfolding generateUnitPrintContent_def Let_def
  by ((rule prefix_imp_sublist, (simp; fail)) | rule sublist_skip)+

lemma unit_print_chrome_ES:
  \<open>language config = ''ES'' \<longrightarrow>
        sublist (''<h3 id="module-credit" class="hidden-sm hidden-xs">\<newline>''
             @ ''                    Producido por The COMET'' @ [CHR 0xAE] @ '' Program\<newline>''
             @ ''                </h3>'')
          (generateUnitPrintContent config now page unitNumber)
      \<and> sublist (''&copy; '' @ numberToString (getFullYear now)
             @ '', <a href="https://www.ucar.edu/">The University Corporation for Atmospheric Research</a><br>''
             @ ''Reservados todos los derechos. <a href="https://meted.ucar.edu/legal_es.htm">Avisos legales</a></p>'')
          (generateUnitPrintContent config now page unitNumber)
      \<and> sublist ''<a href="#top"><span class="glyphicon glyphicon-upload"></span>Arriba</a>''
          (generateUnitPrintContent config now page unitNumber)\<close>
proof
  assume language: "language config = ''ES''"
  then have getters:
      "getProducedByText config = ''Producido por The COMET'' @ [CHR 0xAE] @ '' Program''"
      "getAllRightsReservedText config = ''Reservados todos los derechos.''"
      "getLegalNoticesUrl config = ''https://meted.ucar.edu/legal_es.htm''"
      "getLegalNoticesText config = ''Avisos legales''"
      "getBackToTopText config = ''Arriba''"
    by (simp_all add: getProducedByText_def getAllRightsReservedText_def
        getLegalNoticesUrl_def getLegalNoticesText_def getBackToTopText_def)
  show \<open>sublist (''<h3 id="module-credit" class="hidden-sm hidden-xs">\<newline>''
             @ ''                    Producido por The COMET'' @ [CHR 0xAE] @ '' Program\<newline>''
             @ ''                </h3>'')
          (generateUnitPrintContent config now page unitNumber)
      \<and> sublist (''&copy; '' @ numberToString (getFullYear now)
             @ '', <a href="https://www.ucar.edu/">The University Corporation for Atmospheric Research</a><br>''
             @ ''Reservados todos los derechos. <a href="https://meted.ucar.edu/legal_es.htm">Avisos legales</a></p>'')
          (generateUnitPrintContent config now page unitNumber)
      \<and> sublist ''<a href="#top"><span class="glyphicon glyphicon-upload"></span>Arriba</a>''
          (generateUnitPrintContent config now page unitNumber)\<close>
    unfolding generateUnitPrintContent_def Let_def getters copyrightYear_value
    by (intro conjI; ((rule prefix_imp_sublist, (simp; fail)) | rule sublist_skip)+)
qed

lemma unit_print_chrome_FR:
  \<open>language config = ''FR'' \<longrightarrow>
        sublist (''<h3 id="module-credit" class="hidden-sm hidden-xs">\<newline>''
             @ ''                    Produit par le programme COMET'' @ [CHR 0xAE] @ ''\<newline>''
             @ ''                </h3>'')
          (generateUnitPrintContent config now page unitNumber)
      \<and> sublist (''&copy; '' @ numberToString (getFullYear now)
             @ '', <a href="https://www.ucar.edu/">The University Corporation for Atmospheric Research</a><br>''
             @ ''Tous droits r'' @ [CHR 0xE9] @ ''serv'' @ [CHR 0xE9] @ ''s. <a href="https://meted.ucar.edu/legal.htm">Mentions juridiques</a></p>'')
          (generateUnitPrintContent config now page unitNumber)
      \<and> sublist ''<a href="#top"><span class="glyphicon glyphicon-upload"></span>Haut de la page</a>''
          (generateUnitPrintContent config now page unitNumber)\<close>
proof
  assume language: "language config = ''FR''"
  then have getters:
      "getProducedByText config = ''Produit par le programme COMET'' @ [CHR 0xAE]"
      "getAllRightsReservedText config = ''Tous droits r'' @ [CHR 0xE9] @ ''serv'' @ [CHR 0xE9] @ ''s.''"
      "getLegalNoticesUrl config = ''https://meted.ucar.edu/legal.htm''"
      "getLegalNoticesText config = ''Mentions juridiques''"
      "getBackToTopText config = ''Haut de la page''"
    by (simp_all add: getProducedByText_def getAllRightsReservedText_def
        getLegalNoticesUrl_def getLegalNoticesText_def getBackToTopText_def)
  show \<open>sublist (''<h3 id="module-credit" class="hidden-sm hidden-xs">\<newline>''
             @ ''                    Produit par le programme COMET'' @ [CHR 0xAE] @ ''\<newline>''
             @ ''                </h3>'')
          (generateUnitPrintContent config now page unitNumber)
      \<and> sublist (''&copy; '' @ numberToString (getFullYear now)
             @ '', <a href="https://www.ucar.edu/">The University Corporation for Atmospheric Research</a><br>''
             @ ''Tous droits r'' @ [CHR 0xE9] @ ''serv'' @ [CHR 0xE9] @ ''s. <a href="https://meted.ucar.edu/legal.htm">Mentions juridiques</a></p>'')
          (generateUnitPrintContent config now page unitNumber)
      \<and> sublist ''<a href="#top"><span class="glyphicon glyphicon-upload"></span>Haut de la page</a>''
          (generateUnitPrintContent config now page unitNumber)\<close>
    unfolding generateUnitPrintContent_def Let_def getters copyrightYear_value
    by (intro conjI; ((rule prefix_imp_sublist, (simp; fail)) | rule sublist_skip)+)
qed

lemma unit_print_chrome_EN:
  \<open>language config \<noteq> ''ES'' \<and> language config \<noteq> ''FR'' \<longrightarrow>
        sublist (''<h3 id="module-credit" class="hidden-sm hidden-xs">\<newline>''
             @ ''                    Produced by The COMET&reg; Program\<newline>''
             @ ''                </h3>'')
          (generateUnitPrintContent config now page unitNumber)
      \<and> sublist (''&copy; '' @ numberToString (getFullYear now)
             @ '', <a href="https://www.ucar.edu/">The University Corporation for Atmospheric Research</a><br>''
             @ ''All Rights Reserved. <a href="https://meted.ucar.edu/legal.htm">Legal notices</a></p>'')
          (generateUnitPrintContent config now page unitNumber)
      \<and> sublist ''<a href="#top"><span class="glyphicon glyphicon-upload"></span>Back to Top</a>''
          (generateUnitPrintContent config now page unitNumber)\<close>
proof
  assume language: "language config \<noteq> ''ES'' \<and> language config \<noteq> ''FR''"
  then have getters:
      "getProducedByText config = ''Produced by The COMET&reg; Program''"
      "getAllRightsReservedText config = ''All Rights Reserved.''"
      "getLegalNoticesUrl config = ''https://meted.ucar.edu/legal.htm''"
      "getLegalNoticesText config = ''Legal notices''"
      "getBackToTopText config = ''Back to Top''"
    by (simp_all add: getProducedByText_def getAllRightsReservedText_def
        getLegalNoticesUrl_def getLegalNoticesText_def getBackToTopText_def)
  show \<open>sublist (''<h3 id="module-credit" class="hidden-sm hidden-xs">\<newline>''
             @ ''                    Produced by The COMET&reg; Program\<newline>''
             @ ''                </h3>'')
          (generateUnitPrintContent config now page unitNumber)
      \<and> sublist (''&copy; '' @ numberToString (getFullYear now)
             @ '', <a href="https://www.ucar.edu/">The University Corporation for Atmospheric Research</a><br>''
             @ ''All Rights Reserved. <a href="https://meted.ucar.edu/legal.htm">Legal notices</a></p>'')
          (generateUnitPrintContent config now page unitNumber)
      \<and> sublist ''<a href="#top"><span class="glyphicon glyphicon-upload"></span>Back to Top</a>''
          (generateUnitPrintContent config now page unitNumber)\<close>
    unfolding generateUnitPrintContent_def Let_def getters copyrightYear_value
    by (intro conjI; ((rule prefix_imp_sublist, (simp; fail)) | rule sublist_skip)+)
qed

lemma unit_print_placeholder:
  \<open>sublist
        (''<!-- Unit content will be added here by the content management system -->\<newline>''
           @ ''                    <div class="unit-content-placeholder">\<newline>''
           @ ''                        <div class="alert alert-info">\<newline>''
           @ ''                            <h4>Content Placeholder</h4>\<newline>''
           @ ''                            <p>This unit is ready for content to be added through your content management system.</p>\<newline>''
           @ ''                            <p><strong>Unit:</strong> '' @ title' page @ ''</p>'')
        (generateUnitPrintContent config now page unitNumber)\<close>
  unfolding generateUnitPrintContent_def Let_def contentPlaceholder_def
  by ((rule prefix_imp_sublist, (simp; fail)) | rule sublist_skip)+

lemma generateUnitPrintContent_title_only:
  \<open>generateUnitPrintContent config now
        (LessonPage i t authored d ord ty lvl par ch pg inn) unitNumber
       = generateUnitPrintContent config now
        (LessonPage i2 t otherContent d2 ord2 ty2 lvl2 par2 ch2 pg2 inn2) unitNumber\<close>
  unfolding generateUnitPrintContent_def Let_def LessonPage.sel ..

text \<open>
  C8. For every page and unit number the generated unit print file contains the page's
  title as the heading of its section, the produced-by credit of the banner, the footer
  line (the year, the rights text and the legal-notices link) and the back-to-top label,
  each in the text that the configuration language selects: the Spanish texts for
  \<open>ES\<close>, the French texts for \<open>FR\<close>, the English texts for every other value. In
  place of the page's content it contains the fixed placeholder block with the page's
  title, and it is the same file for any two pages of the same title, whatever their
  authored content and their other fields are.
\<close>

theorem unit_print_embeds_chrome_not_content:
  \<open>sublist (''<h3>'' @ title' page @ ''</h3>'') (generateUnitPrintContent config now page unitNumber)
   \<and> (language config = ''ES'' \<longrightarrow>
        sublist (''<h3 id="module-credit" class="hidden-sm hidden-xs">\<newline>''
             @ ''                    Producido por The COMET'' @ [CHR 0xAE] @ '' Program\<newline>''
             @ ''                </h3>'')
          (generateUnitPrintContent config now page unitNumber)
      \<and> sublist (''&copy; '' @ numberToString (getFullYear now)
             @ '', <a href="https://www.ucar.edu/">The University Corporation for Atmospheric Research</a><br>''
             @ ''Reservados todos los derechos. <a href="https://meted.ucar.edu/legal_es.htm">Avisos legales</a></p>'')
          (generateUnitPrintContent config now page unitNumber)
      \<and> sublist ''<a href="#top"><span class="glyphicon glyphicon-upload"></span>Arriba</a>''
          (generateUnitPrintContent config now page unitNumber))
   \<and> (language config = ''FR'' \<longrightarrow>
        sublist (''<h3 id="module-credit" class="hidden-sm hidden-xs">\<newline>''
             @ ''                    Produit par le programme COMET'' @ [CHR 0xAE] @ ''\<newline>''
             @ ''                </h3>'')
          (generateUnitPrintContent config now page unitNumber)
      \<and> sublist (''&copy; '' @ numberToString (getFullYear now)
             @ '', <a href="https://www.ucar.edu/">The University Corporation for Atmospheric Research</a><br>''
             @ ''Tous droits r'' @ [CHR 0xE9] @ ''serv'' @ [CHR 0xE9] @ ''s. <a href="https://meted.ucar.edu/legal.htm">Mentions juridiques</a></p>'')
          (generateUnitPrintContent config now page unitNumber)
      \<and> sublist ''<a href="#top"><span class="glyphicon glyphicon-upload"></span>Haut de la page</a>''
          (generateUnitPrintContent config now page unitNumber))
   \<and> (language config \<noteq> ''ES'' \<and> language config \<noteq> ''FR'' \<longrightarrow>
        sublist (''<h3 id="module-credit" class="hidden-sm hidden-xs">\<newline>''
             @ ''                    Produced by The COMET&reg; Program\<newline>''
             @ ''                </h3>'')
          (generateUnitPrintContent config now page unitNumber)
      \<and> sublist (''&copy; '' @ numberToString (getFullYear now)
             @ '', <a href="https://www.ucar.edu/">The University Corporation for Atmospheric Research</a><br>''
             @ ''All Rights Reserved. <a href="https://meted.ucar.edu/legal.htm">Legal notices</a></p>'')
          (generateUnitPrintContent config now page unitNumber)
      \<and> sublist ''<a href="#top"><span class="glyphicon glyphicon-upload"></span>Back to Top</a>''
          (generateUnitPrintContent config now page unitNumber))
   \<and> sublist
        (''<!-- Unit content will be added here by the content management system -->\<newline>''
           @ ''                    <div class="unit-content-placeholder">\<newline>''
           @ ''                        <div class="alert alert-info">\<newline>''
           @ ''                            <h4>Content Placeholder</h4>\<newline>''
           @ ''                            <p>This unit is ready for content to be added through your content management system.</p>\<newline>''
           @ ''                            <p><strong>Unit:</strong> '' @ title' page @ ''</p>'')
        (generateUnitPrintContent config now page unitNumber)
   \<and> generateUnitPrintContent config now
        (LessonPage i t authored d ord ty lvl par ch pg inn) unitNumber
       = generateUnitPrintContent config now
        (LessonPage i2 t otherContent d2 ord2 ty2 lvl2 par2 ch2 pg2 inn2) unitNumber\<close>
  by (intro conjI unit_print_heading unit_print_chrome_ES unit_print_chrome_FR unit_print_chrome_EN
      unit_print_placeholder generateUnitPrintContent_title_only)

text \<open>
  The theorem at a Spanish, a French and an English configuration: the back-to-top label
  of each.
\<close>

theorem unit_print_embeds_chrome_witness:
  \<open>sublist ''<a href="#top"><span class="glyphicon glyphicon-upload"></span>Arriba</a>''
      (generateUnitPrintContent spanishConfig exampleDate unitPage 1)
   \<and> sublist ''<a href="#top"><span class="glyphicon glyphicon-upload"></span>Haut de la page</a>''
      (generateUnitPrintContent frenchConfig exampleDate unitPage 1)
   \<and> sublist ''<a href="#top"><span class="glyphicon glyphicon-upload"></span>Back to Top</a>''
      (generateUnitPrintContent twoLevelConfig exampleDate unitPage 1)\<close>
proof -
  have es: "language spanishConfig = ''ES''" and fr: "language frenchConfig = ''FR''"
    and en: "language twoLevelConfig \<noteq> ''ES'' \<and> language twoLevelConfig \<noteq> ''FR''"
    by (simp_all add: spanishConfig_def frenchConfig_def twoLevelConfig_def)
  note spanish = unit_print_embeds_chrome_not_content [of unitPage spanishConfig exampleDate 1,
      THEN conjunct2, THEN conjunct1, THEN mp, OF es, THEN conjunct2, THEN conjunct2]
  note french = unit_print_embeds_chrome_not_content [of unitPage frenchConfig exampleDate 1,
      THEN conjunct2, THEN conjunct2, THEN conjunct1, THEN mp, OF fr, THEN conjunct2, THEN conjunct2]
  note english = unit_print_embeds_chrome_not_content [of unitPage twoLevelConfig exampleDate 1,
      THEN conjunct2, THEN conjunct2, THEN conjunct2, THEN conjunct1, THEN mp, OF en,
      THEN conjunct2, THEN conjunct2]
  from spanish french english show ?thesis by (intro conjI)
qed

text \<open>
  C3, at the configuration whose \<open>customCopyrightYear\<close> is \<open>1999\<close>, resolved in the year
  2026. The claim, like the form that collects the field (``Optional: Override the default
  copyright year'', ``leave blank to use current year''), says that the supplied value is
  the copyright year. The resolver never reads the field: the resolved year is 2026, and
  2026 is the year in the footer of the generated unit print page.
\<close>

theorem copyright_override_ignored:
  \<open>customCopyrightYear twoLevelConfig = Some ''1999''
   \<and> toString (lookupVar (getTemplateVariables exampleDate twoLevelConfig) ''copyrightYear'')
       = ''2026''
   \<and> sublist ''&copy; 2026, <a href="https://www.ucar.edu/">The University Corporation for Atmospheric Research</a><br>All Rights Reserved. <a href="https://meted.ucar.edu/legal.htm">Legal notices</a></p>''
       (generateUnitPrintContent twoLevelConfig exampleDate unitPage 1)\<close>
proof -
  have english: "language twoLevelConfig \<noteq> ''ES'' \<and> language twoLevelConfig \<noteq> ''FR''"
    by (simp add: twoLevelConfig_def)
  have year: "numberToString (getFullYear exampleDate) = ''2026''"
    by (simp add: getFullYear_def exampleDate_def numberToString_2026)
  note footer = unit_print_chrome_EN [of twoLevelConfig exampleDate unitPage 1, THEN mp,
      OF english, THEN conjunct2, THEN conjunct1, unfolded year]
  have "customCopyrightYear twoLevelConfig = Some ''1999''"
    by (simp add: twoLevelConfig_def)
  moreover have "toString (lookupVar (getTemplateVariables exampleDate twoLevelConfig) ''copyrightYear'')
       = ''2026''"
    by (simp only: copyrightYear_value year)
  moreover from footer have \<open>sublist ''&copy; 2026, <a href="https://www.ucar.edu/">The University Corporation for Atmospheric Research</a><br>All Rights Reserved. <a href="https://meted.ucar.edu/legal.htm">Legal notices</a></p>''
       (generateUnitPrintContent twoLevelConfig exampleDate unitPage 1)\<close>
    by simp
  ultimately show ?thesis by (intro conjI)
qed

text \<open>
  C10. For every page the title is inserted as it is, with no character escaped or
  changed, into the banner link, the table-of-contents link, the section heading and the
  placeholder text of the generated unit print file.
\<close>

theorem unit_print_embeds_title_verbatim:
  \<open>sublist (''<a id="module-title" class="module-title-text" href="index.htm">'' @ title' page @ ''</a>'')
      (generateUnitPrintContent config now page unitNumber)
   \<and> sublist (''<li><a href="#page_'' @ numberToString unitNumber @ ''-0-0">'' @ title' page @ ''</a></li>'')
      (generateUnitPrintContent config now page unitNumber)
   \<and> sublist (''<section id="page_'' @ numberToString unitNumber @ ''-0-0" class="page">''
        @ unitPrintSectionGap @ ''<h3>'' @ title' page @ ''</h3>'')
      (generateUnitPrintContent config now page unitNumber)
   \<and> sublist (''<p><strong>Unit:</strong> '' @ title' page @ ''</p>'')
      (generateUnitPrintContent config now page unitNumber)\<close>
  unfolding generateUnitPrintContent_def Let_def
  by (intro conjI; ((rule prefix_imp_sublist, (simp; fail)) | rule sublist_skip)+)

text \<open>The theorem at a title that holds markup: the markup is in the file as it is.\<close>

theorem unit_print_embeds_title_witness:
  \<open>sublist ''<a id="module-title" class="module-title-text" href="index.htm"><b>Tides & Surge</b></a>''
      (generateUnitPrintContent twoLevelConfig exampleDate markupPage 1)
   \<and> sublist ''<p><strong>Unit:</strong> <b>Tides & Surge</b></p>''
      (generateUnitPrintContent twoLevelConfig exampleDate markupPage 1)\<close>
  using unit_print_embeds_title_verbatim [of markupPage twoLevelConfig exampleDate 1]
  by (simp add: markupPage_def)

subsection \<open>Determinism\<close>

text \<open>
  What the generator reads besides the configuration is the clock, of which it takes the
  calendar year, and the answers of the server to its requests for the template files.
  The lemmas below follow two runs of the generator through every function that works on
  text: when the two texts are the same up to the years of the two runs, so are the results.
  The markers of the expressions and the keys of the template variables hold no digit, so
  a match never begins or ends inside a year, and the matches of the two runs correspond.
\<close>

text \<open>
  The relation as an equation that computes: both texts are empty, or they begin with the
  same code unit and their rests are related, or the first begins with \<open>y1\<close>, the second
  with \<open>y2\<close>, and what follows the two years is related.
\<close>

lemma sameUpTo_code [code]:
  "sameUpTo y1 y2 a b =
     ((a = [] \<and> b = [])
      \<or> (a \<noteq> [] \<and> b \<noteq> [] \<and> hd a = hd b \<and> sameUpTo y1 y2 (tl a) (tl b))
      \<or> (prefix y1 a \<and> prefix y2 b
           \<and> sameUpTo y1 y2 (drop (length y1) a) (drop (length y2) b)))"
proof
  assume "sameUpTo y1 y2 a b"
  then show "(a = [] \<and> b = [])
      \<or> (a \<noteq> [] \<and> b \<noteq> [] \<and> hd a = hd b \<and> sameUpTo y1 y2 (tl a) (tl b))
      \<or> (prefix y1 a \<and> prefix y2 b
           \<and> sameUpTo y1 y2 (drop (length y1) a) (drop (length y2) b))"
    by (cases rule: sameUpTo.cases) simp_all
next
  assume "(a = [] \<and> b = [])
      \<or> (a \<noteq> [] \<and> b \<noteq> [] \<and> hd a = hd b \<and> sameUpTo y1 y2 (tl a) (tl b))
      \<or> (prefix y1 a \<and> prefix y2 b
           \<and> sameUpTo y1 y2 (drop (length y1) a) (drop (length y2) b))"
  then show "sameUpTo y1 y2 a b"
  proof (elim disjE conjE)
    assume "a = []" "b = []"
    then show ?thesis by (simp add: sameUpTo.empty)
  next
    assume *: "a \<noteq> []" "b \<noteq> []" "hd a = hd b" "sameUpTo y1 y2 (tl a) (tl b)"
    from *(1,2,3) obtain c s1 s2 where ab: "a = c # s1" "b = c # s2"
      by (cases a; cases b) auto
    from *(4) have "sameUpTo y1 y2 (c # s1) (c # s2)"
      unfolding ab by (simp add: sameUpTo.same)
    then show ?thesis unfolding ab .
  next
    assume *: "prefix y1 a" "prefix y2 b" "sameUpTo y1 y2 (drop (length y1) a) (drop (length y2) b)"
    from *(1,2) have "a = y1 @ drop (length y1) a" "b = y2 @ drop (length y2) b"
      by (auto simp add: prefix_def)
    with sameUpTo.year [OF *(3)] show ?thesis by simp
  qed
qed

lemma digit_not_space: "isDigit c \<Longrightarrow> \<not> isWhiteSpace c"
  by (auto simp add: isDigit_def isWhiteSpace_def)

lemma yearText_numberToString: "yearText (numberToString n)"
  unfolding yearText_def list_all_iff
proof (intro conjI ballI)
  show "numberToString n \<noteq> []" by (rule numberToString_not_Nil)
next
  fix c assume "c \<in> set (numberToString n)"
  then obtain d where "d < 10" "c = digitChar d" using numberToString_digits by blast
  then show "isDigit c" by (simp add: isDigit_def digitChar_code)
qed

lemma sameUpTo_refl: "sameUpTo y1 y2 s s"
  by (induction s) (auto intro: sameUpTo.intros)

lemma sameUpTo_append:
  "sameUpTo y1 y2 a1 a2 \<Longrightarrow> sameUpTo y1 y2 b1 b2 \<Longrightarrow> sameUpTo y1 y2 (a1 @ b1) (a2 @ b2)"
proof (induction rule: sameUpTo.induct)
  case empty
  then show ?case by simp
next
  case (same s1 s2 c)
  then show ?case by (simp add: sameUpTo.same)
next
  case (year s1 s2)
  then have "sameUpTo y1 y2 (y1 @ (s1 @ b1)) (y2 @ (s2 @ b2))" by (intro sameUpTo.year) simp
  then show ?case by simp
qed

lemma sameUpTo_prepend: "sameUpTo y1 y2 s1 s2 \<Longrightarrow> sameUpTo y1 y2 (p @ s1) (p @ s2)"
  by (rule sameUpTo_append [OF sameUpTo_refl])

lemma sameUpTo_years: "sameUpTo y1 y2 y1 y2"
  using sameUpTo.year [OF sameUpTo.empty] by simp

lemma sameUpTo_sym: "sameUpTo y1 y2 s1 s2 \<Longrightarrow> sameUpTo y2 y1 s2 s1"
  by (induction rule: sameUpTo.induct) (auto intro: sameUpTo.intros)

lemma sameUpTo_same_year: "sameUpTo y y s1 s2 \<Longrightarrow> s1 = s2"
  by (induction rule: sameUpTo.induct) auto

lemma sameUpTo_Nil:
  assumes "yearText y1" "yearText y2" "sameUpTo y1 y2 [] s"
  shows "s = []"
  using assms(3,1) by (cases rule: sameUpTo.cases) (auto simp add: yearText_def)

lemma sameUpTo_Nil2:
  assumes "yearText y1" "yearText y2" "sameUpTo y1 y2 s []"
  shows "s = []"
  using assms(3,2) by (cases rule: sameUpTo.cases) (auto simp add: yearText_def)

lemma yearText_hd: "yearText y \<Longrightarrow> \<exists>d ds. y = d # ds \<and> isDigit d \<and> list_all isDigit ds"
  by (cases y) (auto simp add: yearText_def)

lemma sameUpTo_Cons:
  assumes "yearText y1" "yearText y2" "sameUpTo y1 y2 (c # t1) s2" "\<not> isDigit c"
  shows "\<exists>t2. s2 = c # t2 \<and> sameUpTo y1 y2 t1 t2"
  using assms(3)
proof (cases rule: sameUpTo.cases)
  case same
  then show ?thesis by auto
next
  case year
  with yearText_hd [OF assms(1)] assms(4) show ?thesis by auto
qed

lemma sameUpTo_prefix:
  assumes "yearText y1" "yearText y2"
  shows "list_all (\<lambda>c. \<not> isDigit c) m \<Longrightarrow> sameUpTo y1 y2 s1 s2 \<Longrightarrow> prefix m s1 \<Longrightarrow>
    \<exists>r1 r2. s1 = m @ r1 \<and> s2 = m @ r2 \<and> sameUpTo y1 y2 r1 r2"
proof (induction m arbitrary: s1 s2)
  case Nil
  then show ?case by simp
next
  case (Cons c m)
  from Cons.prems(3) obtain t1 where s1: "s1 = c # t1" and p: "prefix m t1"
    by (cases s1) auto
  from Cons.prems(1) have c: "\<not> isDigit c" and m: "list_all (\<lambda>c. \<not> isDigit c) m" by auto
  from sameUpTo_Cons [OF assms Cons.prems(2) [unfolded s1] c]
  obtain t2 where s2: "s2 = c # t2" and t: "sameUpTo y1 y2 t1 t2" by blast
  from Cons.IH [OF m t p] s1 s2 show ?case by auto
qed

lemma sameUpTo_prefix_iff:
  assumes "yearText y1" "yearText y2" "list_all (\<lambda>c. \<not> isDigit c) m" "sameUpTo y1 y2 s1 s2"
  shows "prefix m s1 \<longleftrightarrow> prefix m s2"
proof
  assume "prefix m s1"
  from sameUpTo_prefix [OF assms this] show "prefix m s2" by auto
next
  assume "prefix m s2"
  from sameUpTo_prefix [OF assms(2,1,3) sameUpTo_sym [OF assms(4)] this] show "prefix m s1" by auto
qed

lemma sameUpTo_dropWhile:
  assumes "yearText y1" "yearText y2"
  shows "sameUpTo y1 y2 s1 s2 \<Longrightarrow>
    \<exists>w. s1 = w @ dropWhile isWhiteSpace s1 \<and> s2 = w @ dropWhile isWhiteSpace s2
      \<and> sameUpTo y1 y2 (dropWhile isWhiteSpace s1) (dropWhile isWhiteSpace s2)"
proof (induction rule: sameUpTo.induct)
  case empty
  show ?case by (simp add: sameUpTo.empty)
next
  case (same s1 s2 c)
  then obtain w where w: "s1 = w @ dropWhile isWhiteSpace s1" "s2 = w @ dropWhile isWhiteSpace s2"
    and r: "sameUpTo y1 y2 (dropWhile isWhiteSpace s1) (dropWhile isWhiteSpace s2)" by blast
  show ?case
  proof (cases "isWhiteSpace c")
    case True
    from w have "c # s1 = (c # w) @ dropWhile isWhiteSpace s1" "c # s2 = (c # w) @ dropWhile isWhiteSpace s2"
      by simp_all
    with True r show ?thesis by (intro exI [of _ "c # w"]) simp
  next
    case False
    with same.hyps show ?thesis by (intro exI [of _ "[]"]) (simp add: sameUpTo.same)
  qed
next
  case (year s1 s2)
  from yearText_hd [OF assms(1)] obtain d1 ds1 where y1: "y1 = d1 # ds1" "isDigit d1" by blast
  from yearText_hd [OF assms(2)] obtain d2 ds2 where y2: "y2 = d2 # ds2" "isDigit d2" by blast
  have "dropWhile isWhiteSpace (y1 @ s1) = y1 @ s1" "dropWhile isWhiteSpace (y2 @ s2) = y2 @ s2"
    using y1 y2 by (simp_all add: digit_not_space)
  with year.hyps show ?case by (intro exI [of _ "[]"]) (simp add: sameUpTo.year)
qed


subsubsection \<open>Variable tokens\<close>

lemma marker_literals:
  "list_all (\<lambda>c. \<not> isDigit c) ''<%=''" "list_all (\<lambda>c. \<not> isDigit c) ''%>''"
  by (simp_all add: isDigit_def)

lemma matchVariableToken_digit: "isDigit d \<Longrightarrow> matchVariableToken key (d # t) = None"
  by (auto simp add: matchVariableToken_def isDigit_def)

lemma matchVariableToken_sameUpTo:
  assumes Y: "yearText y1" "yearText y2"
    and key: "list_all (\<lambda>c. \<not> isDigit c) key"
    and R: "sameUpTo y1 y2 s1 s2"
  shows "(matchVariableToken key s1 = None \<and> matchVariableToken key s2 = None)
    \<or> (\<exists>tok r1 r2. tok \<noteq> [] \<and> s1 = tok @ r1 \<and> s2 = tok @ r2 \<and> sameUpTo y1 y2 r1 r2
          \<and> matchVariableToken key s1 = Some r1 \<and> matchVariableToken key s2 = Some r2)"
proof (cases "prefix ''<%='' s1")
  case False
  with sameUpTo_prefix_iff [OF Y marker_literals(1) R] show ?thesis
    by (simp add: matchVariableToken_def)
next
  case True
  from sameUpTo_prefix [OF Y marker_literals(1) R True]
  obtain a1 a2 where a: "s1 = ''<%='' @ a1" "s2 = ''<%='' @ a2" "sameUpTo y1 y2 a1 a2" by blast
  from sameUpTo_dropWhile [OF Y a(3)]
  obtain w where w: "a1 = w @ dropWhile isWhiteSpace a1" "a2 = w @ dropWhile isWhiteSpace a2"
    and b: "sameUpTo y1 y2 (dropWhile isWhiteSpace a1) (dropWhile isWhiteSpace a2)" by blast
  define b1 where "b1 = dropWhile isWhiteSpace a1"
  define b2 where "b2 = dropWhile isWhiteSpace a2"
  note w = w [folded b1_def b2_def] and b = b [folded b1_def b2_def]
  have start1: "matchVariableToken key s1 =
      (if prefix key b1 then
         (let s2 = dropWhile isWhiteSpace (drop (length key) b1) in
          if prefix ''%>'' s2 then Some (drop 2 s2) else None)
       else None)"
    by (simp add: matchVariableToken_def a(1) b1_def Let_def)
  have start2: "matchVariableToken key s2 =
      (if prefix key b2 then
         (let s2 = dropWhile isWhiteSpace (drop (length key) b2) in
          if prefix ''%>'' s2 then Some (drop 2 s2) else None)
       else None)"
    by (simp add: matchVariableToken_def a(2) b2_def Let_def)
  show ?thesis
  proof (cases "prefix key b1")
    case False
    with sameUpTo_prefix_iff [OF Y key b] start1 start2 show ?thesis by simp
  next
    case pk: True
    from sameUpTo_prefix [OF Y key b pk]
    obtain c1 c2 where c: "b1 = key @ c1" "b2 = key @ c2" "sameUpTo y1 y2 c1 c2" by blast
    from sameUpTo_dropWhile [OF Y c(3)]
    obtain v where v: "c1 = v @ dropWhile isWhiteSpace c1" "c2 = v @ dropWhile isWhiteSpace c2"
      and d: "sameUpTo y1 y2 (dropWhile isWhiteSpace c1) (dropWhile isWhiteSpace c2)" by blast
    define d1 where "d1 = dropWhile isWhiteSpace c1"
    define d2 where "d2 = dropWhile isWhiteSpace c2"
    note v = v [folded d1_def d2_def] and d = d [folded d1_def d2_def]
    have mid1: "matchVariableToken key s1 = (if prefix ''%>'' d1 then Some (drop 2 d1) else None)"
      by (simp add: start1 c(1) d1_def)
    have mid2: "matchVariableToken key s2 = (if prefix ''%>'' d2 then Some (drop 2 d2) else None)"
      by (simp add: start2 c(2) d2_def)
    show ?thesis
    proof (cases "prefix ''%>'' d1")
      case False
      with sameUpTo_prefix_iff [OF Y marker_literals(2) d] mid1 mid2 show ?thesis by simp
    next
      case pe: True
      from sameUpTo_prefix [OF Y marker_literals(2) d pe]
      obtain r1 r2 where r: "d1 = ''%>'' @ r1" "d2 = ''%>'' @ r2" "sameUpTo y1 y2 r1 r2" by blast
      have s1: "s1 = (''<%='' @ w @ key @ v @ ''%>'') @ r1"
        using a(1) w(1) c(1) v(1) r(1) by (metis append.assoc)
      have s2: "s2 = (''<%='' @ w @ key @ v @ ''%>'') @ r2"
        using a(2) w(2) c(2) v(2) r(2) by (metis append.assoc)
      have "matchVariableToken key s1 = Some r1" "matchVariableToken key s2 = Some r2"
        by (simp_all add: mid1 mid2 r)
      with s1 s2 r(3) show ?thesis by blast
    qed
  qed
qed

subsubsection \<open>Replacement strings\<close>

lemma getSubstitution_sameUpTo:
  "sameUpTo y1 y2 p1 p2 \<Longrightarrow> sameUpTo y1 y2 f1 f2 \<Longrightarrow>
   sameUpTo y1 y2 (getSubstitution tok p1 f1 r) (getSubstitution tok p2 f2 r)"
proof (induction tok p1 f1 r rule: getSubstitution.induct)
  case (1 matched preceding following)
  show ?case by (simp add: sameUpTo.empty)
next
  case (2 matched preceding following c)
  show ?case by (simp add: sameUpTo_refl)
next
  case (3 matched preceding following c d r)
  then show ?case
    by (auto intro!: sameUpTo.same sameUpTo_append sameUpTo_refl sameUpTo_prepend)
qed

lemma getSubstitution_digits:
  "list_all isDigit y \<Longrightarrow> getSubstitution tok p f y = y"
proof (induction tok p f y rule: getSubstitution.induct)
  case (3 matched preceding following c d r)
  then have "c \<noteq> CHR ''$''" by (auto simp add: isDigit_def)
  with 3 show ?case by simp
qed simp_all

subsubsection \<open>Replacing variable tokens\<close>

lemma replaceVariable_digits:
  "list_all isDigit y \<Longrightarrow>
   replaceVariable key r c (y @ t) = y @ replaceVariable key r (c @ y) t"
proof (induction y arbitrary: c)
  case Nil
  show ?case by simp
next
  case (Cons d ds)
  then have "matchVariableToken key (d # ds @ t) = None"
    by (simp add: matchVariableToken_digit)
  with Cons show ?case by simp
qed

lemma replaceVariable_match:
  assumes "s = tok @ rest" "tok \<noteq> []" "matchVariableToken key s = Some rest"
  shows "replaceVariable key r c s
    = getSubstitution tok c rest r @ replaceVariable key r (c @ tok) rest"
proof (cases s)
  case Nil
  with assms show ?thesis by simp
next
  case (Cons x t)
  from assms(1,2) have "length rest < length s" "take (length s - length rest) s = tok"
    by simp_all
  with assms(3) show ?thesis unfolding Cons by (simp add: Let_def)
qed

lemma replaceVariable_sameUpTo:
  assumes Y: "yearText y1" "yearText y2"
    and key: "list_all (\<lambda>c. \<not> isDigit c) key"
    and repl: "\<And>tok p1 p2 f1 f2. sameUpTo y1 y2 p1 p2 \<Longrightarrow> sameUpTo y1 y2 f1 f2 \<Longrightarrow>
      sameUpTo y1 y2 (getSubstitution tok p1 f1 r1) (getSubstitution tok p2 f2 r2)"
  shows "sameUpTo y1 y2 c1 c2 \<Longrightarrow> sameUpTo y1 y2 s1 s2 \<Longrightarrow>
    sameUpTo y1 y2 (replaceVariable key r1 c1 s1) (replaceVariable key r2 c2 s2)"
proof (induction "length s1" arbitrary: s1 s2 c1 c2 rule: less_induct)
  case less
  note consumed = less.prems(1)
  from less.prems(2) show ?case
  proof (cases rule: sameUpTo.cases)
    case empty
    then show ?thesis by (simp add: sameUpTo.empty)
  next
    case (same t1 t2 x)
    from matchVariableToken_sameUpTo [OF Y key less.prems(2)] show ?thesis
    proof (elim disjE conjE exE)
      assume none: "matchVariableToken key s1 = None" "matchVariableToken key s2 = None"
      have shorter: "length t1 < length s1" by (simp add: same(1))
      have "sameUpTo y1 y2 (c1 @ [x]) (c2 @ [x])"
        by (rule sameUpTo_append [OF consumed sameUpTo_refl])
      from less.hyps [OF shorter this same(3)]
      have "sameUpTo y1 y2 (x # replaceVariable key r1 (c1 @ [x]) t1)
          (x # replaceVariable key r2 (c2 @ [x]) t2)"
        by (rule sameUpTo.same)
      moreover have "replaceVariable key r1 c1 s1 = x # replaceVariable key r1 (c1 @ [x]) t1"
        using none(1) unfolding same(1) by simp
      moreover have "replaceVariable key r2 c2 s2 = x # replaceVariable key r2 (c2 @ [x]) t2"
        using none(2) unfolding same(2) by simp
      ultimately show ?thesis by simp
    next
      fix tok rest1 rest2
      assume some: "tok \<noteq> []" "s1 = tok @ rest1" "s2 = tok @ rest2" "sameUpTo y1 y2 rest1 rest2"
        "matchVariableToken key s1 = Some rest1" "matchVariableToken key s2 = Some rest2"
      have shorter: "length rest1 < length s1" using some(1,2) by simp
      have "sameUpTo y1 y2 (c1 @ tok) (c2 @ tok)"
        by (rule sameUpTo_append [OF consumed sameUpTo_refl])
      from less.hyps [OF shorter this some(4)] repl [OF consumed some(4)]
      show ?thesis
        unfolding replaceVariable_match [OF some(2) some(1) some(5)]
          replaceVariable_match [OF some(3) some(1) some(6)]
        by (intro sameUpTo_append)
    qed
  next
    case (year t1 t2)
    from Y have digits: "list_all isDigit y1" "list_all isDigit y2" and "y1 \<noteq> []"
      by (simp_all add: yearText_def)
    have shorter: "length t1 < length s1" using \<open>y1 \<noteq> []\<close> by (simp add: year(1))
    have "sameUpTo y1 y2 (c1 @ y1) (c2 @ y2)"
      by (rule sameUpTo_append [OF consumed sameUpTo_years])
    from less.hyps [OF shorter this year(3)]
    show ?thesis
      unfolding year(1,2) replaceVariable_digits [OF digits(1)] replaceVariable_digits [OF digits(2)]
      by (rule sameUpTo.year)
  qed
qed

subsubsection \<open>Block expressions\<close>

lemma marker_not_prefix:
  assumes "marker m" "isDigit d"
  shows "\<not> prefix m (d # t)"
  using assms by (cases m) (auto simp add: marker_def)

lemma splitAtFirst_digits:
  assumes "marker m"
  shows "list_all isDigit y \<Longrightarrow>
    splitAtFirst m (y @ t) = map_option (\<lambda>(gap, rest). (y @ gap, rest)) (splitAtFirst m t)"
proof (induction y)
  case Nil
  show ?case by (simp add: option.map_ident split_def)
next
  case (Cons d ds)
  then have "\<not> prefix m (d # ds @ t)" using marker_not_prefix [OF assms] by simp
  with Cons show ?case by (simp split: option.splits)
qed

lemma splitAtFirst_here:
  assumes "m @ r \<noteq> []"
  shows "splitAtFirst m (m @ r) = Some ([], r)"
proof -
  from assms obtain c cs where e: "m @ r = c # cs" by (cases "m @ r") auto
  have "prefix m (c # cs)" unfolding e [symmetric] by simp
  then have "splitAtFirst m (c # cs) = Some ([], drop (length m) (c # cs))" by simp
  then show ?thesis unfolding e [symmetric] by simp
qed

lemma splitAtFirst_later:
  "\<not> prefix m (x # t) \<Longrightarrow> splitAtFirst m t = Some (g, r) \<Longrightarrow> splitAtFirst m (x # t) = Some (x # g, r)"
  "\<not> prefix m (x # t) \<Longrightarrow> splitAtFirst m t = None \<Longrightarrow> splitAtFirst m (x # t) = None"
  by simp_all

lemma splitAtFirst_sameUpTo:
  assumes Y: "yearText y1" "yearText y2" and m: "marker m"
  shows "sameUpTo y1 y2 s1 s2 \<Longrightarrow>
    (splitAtFirst m s1 = None \<and> splitAtFirst m s2 = None)
    \<or> (\<exists>g1 g2 r1 r2. splitAtFirst m s1 = Some (g1, r1) \<and> splitAtFirst m s2 = Some (g2, r2)
          \<and> sameUpTo y1 y2 g1 g2 \<and> sameUpTo y1 y2 r1 r2
          \<and> s1 = g1 @ m @ r1 \<and> s2 = g2 @ m @ r2)"
proof (induction rule: sameUpTo.induct)
  case empty
  from m show ?case by (simp add: marker_def)
next
  case (same t1 t2 x)
  from m have free: "list_all (\<lambda>c. \<not> isDigit c) m" by (simp add: marker_def)
  have R: "sameUpTo y1 y2 (x # t1) (x # t2)" by (rule sameUpTo.same [OF same.hyps])
  show ?case
  proof (cases "prefix m (x # t1)")
    case True
    from sameUpTo_prefix [OF Y free R True]
    obtain r1 r2 where r: "x # t1 = m @ r1" "x # t2 = m @ r2" "sameUpTo y1 y2 r1 r2" by blast
    have "splitAtFirst m (m @ r1) = Some ([], r1)" "splitAtFirst m (m @ r2) = Some ([], r2)"
      using r(1,2) by (intro splitAtFirst_here; metis list.distinct(1))+
    then have "splitAtFirst m (x # t1) = Some ([], r1)" "splitAtFirst m (x # t2) = Some ([], r2)"
      unfolding r(1,2) .
    moreover have "x # t1 = [] @ m @ r1" "x # t2 = [] @ m @ r2" using r(1,2) by simp_all
    ultimately show ?thesis using r(3) sameUpTo.empty [of y1 y2] by blast
  next
    case False
    with sameUpTo_prefix_iff [OF Y free R] have no: "\<not> prefix m (x # t1)" "\<not> prefix m (x # t2)"
      by simp_all
    from same.IH show ?thesis
    proof (elim disjE conjE exE)
      assume none: "splitAtFirst m t1 = None" "splitAtFirst m t2 = None"
      have "splitAtFirst m (x # t1) = None" by (rule splitAtFirst_later(2) [OF no(1) none(1)])
      moreover have "splitAtFirst m (x # t2) = None" by (rule splitAtFirst_later(2) [OF no(2) none(2)])
      ultimately show ?thesis by blast
    next
      fix g1 g2 r1 r2
      assume *: "splitAtFirst m t1 = Some (g1, r1)" "splitAtFirst m t2 = Some (g2, r2)"
          "sameUpTo y1 y2 g1 g2" "sameUpTo y1 y2 r1 r2" "t1 = g1 @ m @ r1" "t2 = g2 @ m @ r2"
      have "splitAtFirst m (x # t1) = Some (x # g1, r1)"
        by (rule splitAtFirst_later(1) [OF no(1) *(1)])
      moreover have "splitAtFirst m (x # t2) = Some (x # g2, r2)"
        by (rule splitAtFirst_later(1) [OF no(2) *(2)])
      moreover have "sameUpTo y1 y2 (x # g1) (x # g2)" by (rule sameUpTo.same [OF *(3)])
      moreover have "x # t1 = (x # g1) @ m @ r1" "x # t2 = (x # g2) @ m @ r2"
        using *(5,6) by simp_all
      ultimately show ?thesis using *(4) by blast
    qed
  qed
next
  case (year t1 t2)
  from Y have digits: "list_all isDigit y1" "list_all isDigit y2" by (simp_all add: yearText_def)
  note skip = splitAtFirst_digits [OF m digits(1)] splitAtFirst_digits [OF m digits(2)]
  from year.IH show ?case
  proof (elim disjE conjE exE)
    assume "splitAtFirst m t1 = None" "splitAtFirst m t2 = None"
    then show ?thesis by (simp add: skip)
  next
    fix g1 g2 r1 r2
    assume *: "splitAtFirst m t1 = Some (g1, r1)" "splitAtFirst m t2 = Some (g2, r2)"
        "sameUpTo y1 y2 g1 g2" "sameUpTo y1 y2 r1 r2" "t1 = g1 @ m @ r1" "t2 = g2 @ m @ r2"
    have "splitAtFirst m (y1 @ t1) = Some (y1 @ g1, r1)" "splitAtFirst m (y2 @ t2) = Some (y2 @ g2, r2)"
      using *(1,2) by (simp_all add: skip)
    moreover have "sameUpTo y1 y2 (y1 @ g1) (y2 @ g2)" by (rule sameUpTo.year [OF *(3)])
    moreover have "y1 @ t1 = (y1 @ g1) @ m @ r1" "y2 @ t2 = (y2 @ g2) @ m @ r2"
      using *(5,6) by simp_all
    ultimately show ?thesis using *(4) by blast
  qed
qed

lemma lazyGaps_sameUpTo:
  assumes Y: "yearText y1" "yearText y2"
  shows "list_all marker ms \<Longrightarrow> sameUpTo y1 y2 s1 s2 \<Longrightarrow>
    (lazyGaps ms s1 = None \<and> lazyGaps ms s2 = None)
    \<or> (\<exists>gs1 gs2 r1 r2 m1 m2. lazyGaps ms s1 = Some (gs1, r1) \<and> lazyGaps ms s2 = Some (gs2, r2)
          \<and> list_all2 (sameUpTo y1 y2) gs1 gs2 \<and> sameUpTo y1 y2 r1 r2
          \<and> s1 = m1 @ r1 \<and> s2 = m2 @ r2 \<and> sameUpTo y1 y2 m1 m2)"
proof (induction ms arbitrary: s1 s2)
  case Nil
  have "lazyGaps [] s1 = Some ([], s1)" "lazyGaps [] s2 = Some ([], s2)" by simp_all
  moreover have "list_all2 (sameUpTo y1 y2) [] []" by simp
  moreover have "s1 = [] @ s1" "s2 = [] @ s2" by simp_all
  ultimately show ?case using Nil.prems(2) sameUpTo.empty [of y1 y2] by blast
next
  case (Cons m ms)
  from Cons.prems(1) have m: "marker m" and ms: "list_all marker ms" by simp_all
  from splitAtFirst_sameUpTo [OF Y m Cons.prems(2)] show ?case
  proof (elim disjE conjE exE)
    assume "splitAtFirst m s1 = None" "splitAtFirst m s2 = None"
    then show ?thesis by simp
  next
    fix g1 g2 r1 r2
    assume split: "splitAtFirst m s1 = Some (g1, r1)" "splitAtFirst m s2 = Some (g2, r2)"
      "sameUpTo y1 y2 g1 g2" "sameUpTo y1 y2 r1 r2" "s1 = g1 @ m @ r1" "s2 = g2 @ m @ r2"
    from Cons.IH [OF ms split(4)] show ?thesis
    proof (elim disjE conjE exE)
      assume "lazyGaps ms r1 = None" "lazyGaps ms r2 = None"
      with split(1,2) show ?thesis by simp
    next
      fix gs1 gs2 rest1 rest2 n1 n2
      assume gaps: "lazyGaps ms r1 = Some (gs1, rest1)" "lazyGaps ms r2 = Some (gs2, rest2)"
        "list_all2 (sameUpTo y1 y2) gs1 gs2" "sameUpTo y1 y2 rest1 rest2"
        "r1 = n1 @ rest1" "r2 = n2 @ rest2" "sameUpTo y1 y2 n1 n2"
      have "lazyGaps (m # ms) s1 = Some (g1 # gs1, rest1)" "lazyGaps (m # ms) s2 = Some (g2 # gs2, rest2)"
        using split(1,2) gaps(1,2) by simp_all
      moreover have "list_all2 (sameUpTo y1 y2) (g1 # gs1) (g2 # gs2)"
        using split(3) gaps(3) by simp
      moreover have "s1 = (g1 @ m @ n1) @ rest1" "s2 = (g2 @ m @ n2) @ rest2"
        using split(5,6) gaps(5,6) by simp_all
      moreover have "sameUpTo y1 y2 (g1 @ m @ n1) (g2 @ m @ n2)"
        by (intro sameUpTo_append split(3) sameUpTo_refl gaps(7))
      ultimately show ?thesis using gaps(4) by blast
    qed
  qed
qed

lemma matchAt_digit:
  assumes "marker (openMarker re)" "isDigit d"
  shows "matchAt re (d # t) = None"
  using marker_not_prefix [OF assms] by (simp add: matchAt_def)

lemma matchAt_Nil:
  assumes "marker (openMarker re)"
  shows "matchAt re [] = None"
  using assms by (simp add: matchAt_def marker_def)

lemma matchAt_sameUpTo:
  assumes Y: "yearText y1" "yearText y2"
    and start: "marker (openMarker re)" and ms: "list_all marker (markers re)"
    and R: "sameUpTo y1 y2 s1 s2"
  shows "(matchAt re s1 = None \<and> matchAt re s2 = None)
    \<or> (\<exists>gs1 gs2 r1 r2 m1 m2. matchAt re s1 = Some (gs1, r1) \<and> matchAt re s2 = Some (gs2, r2)
          \<and> list_all2 (sameUpTo y1 y2) gs1 gs2 \<and> sameUpTo y1 y2 r1 r2
          \<and> s1 = m1 @ r1 \<and> s2 = m2 @ r2 \<and> sameUpTo y1 y2 m1 m2 \<and> m1 \<noteq> [] \<and> m2 \<noteq> [])"
proof (cases "prefix (openMarker re) s1")
  case False
  from start have free: "list_all (\<lambda>c. \<not> isDigit c) (openMarker re)" by (simp add: marker_def)
  from False sameUpTo_prefix_iff [OF Y free R] show ?thesis by (simp add: matchAt_def)
next
  case True
  from start have free: "list_all (\<lambda>c. \<not> isDigit c) (openMarker re)" and ne: "openMarker re \<noteq> []"
    by (simp_all add: marker_def)
  from sameUpTo_prefix [OF Y free R True]
  obtain a1 a2 where a: "s1 = openMarker re @ a1" "s2 = openMarker re @ a2" "sameUpTo y1 y2 a1 a2"
    by blast
  have at: "matchAt re s1 = lazyGaps (markers re) a1" "matchAt re s2 = lazyGaps (markers re) a2"
    by (simp_all add: matchAt_def a(1,2))
  from lazyGaps_sameUpTo [OF Y ms a(3)] show ?thesis
  proof (elim disjE conjE exE)
    assume "lazyGaps (markers re) a1 = None" "lazyGaps (markers re) a2 = None"
    with at show ?thesis by simp
  next
    fix gs1 gs2 r1 r2 n1 n2
    assume gaps: "lazyGaps (markers re) a1 = Some (gs1, r1)" "lazyGaps (markers re) a2 = Some (gs2, r2)"
      "list_all2 (sameUpTo y1 y2) gs1 gs2" "sameUpTo y1 y2 r1 r2"
      "a1 = n1 @ r1" "a2 = n2 @ r2" "sameUpTo y1 y2 n1 n2"
    have "matchAt re s1 = Some (gs1, r1)" "matchAt re s2 = Some (gs2, r2)"
      using at gaps(1,2) by simp_all
    moreover have "s1 = (openMarker re @ n1) @ r1" "s2 = (openMarker re @ n2) @ r2"
      using a(1,2) gaps(5,6) by simp_all
    moreover have "sameUpTo y1 y2 (openMarker re @ n1) (openMarker re @ n2)"
      by (rule sameUpTo_prepend [OF gaps(7)])
    moreover have "openMarker re @ n1 \<noteq> []" "openMarker re @ n2 \<noteq> []" using ne by simp_all
    ultimately show ?thesis using gaps(3,4) by blast
  qed
qed

subsubsection \<open>Replacing blocks\<close>

lemma replaceBlocks_Nil:
  "marker (openMarker re) \<Longrightarrow> replaceBlocks re cb w off [] = Inr []"
  by (simp add: matchAt_Nil)

lemma replaceBlocks_nomatch:
  "matchAt re (x # t) = None \<Longrightarrow>
   replaceBlocks re cb w off (x # t)
     = (case replaceBlocks re cb w (Suc off) t of Inl e \<Rightarrow> Inl e | Inr out \<Rightarrow> Inr (x # out))"
  by simp

lemma replaceBlocks_match:
  assumes "s = m @ rest" "m \<noteq> []" "matchAt re s = Some (gs, rest)"
  shows "replaceBlocks re cb w off s
    = (case cb (replacerArgs re m gs off w) of
         Inl e \<Rightarrow> Inl e
       | Inr replacement \<Rightarrow>
           (case replaceBlocks re cb w (off + length m) rest of
              Inl e \<Rightarrow> Inl e
            | Inr out \<Rightarrow> Inr (replacement @ out)))"
proof (cases s)
  case Nil
  with assms show ?thesis by simp
next
  case (Cons x t)
  from assms(1,2) have "length rest < length s" "take (length s - length rest) s = m"
    "length s - length rest = length m"
    by simp_all
  with assms(3) show ?thesis unfolding Cons by (simp add: Let_def split: sum.splits)
qed

lemma replaceBlocks_digits:
  assumes "marker (openMarker re)"
  shows "list_all isDigit y \<Longrightarrow>
    replaceBlocks re cb w off (y @ t)
      = (case replaceBlocks re cb w (off + length y) t of Inl e \<Rightarrow> Inl e | Inr out \<Rightarrow> Inr (y @ out))"
proof (induction y arbitrary: off)
  case Nil
  show ?case by (simp split: sum.splits)
next
  case (Cons d ds)
  then have none: "matchAt re (d # ds @ t) = None" and "list_all isDigit ds"
    using matchAt_digit [OF assms] by simp_all
  from Cons.IH [OF this(2), of "Suc off"] show ?case
    unfolding append_Cons replaceBlocks_nomatch [OF none]
    by (simp split: sum.splits)
qed

lemma sameUpTo_case:
  assumes "rel_sum (=) (sameUpTo y1 y2) a b"
    and "\<And>u v. sameUpTo y1 y2 u v \<Longrightarrow> sameUpTo y1 y2 (f u) (g v)"
  shows "rel_sum (=) (sameUpTo y1 y2)
    (case a of Inl e \<Rightarrow> Inl e | Inr out \<Rightarrow> Inr (f out))
    (case b of Inl e \<Rightarrow> Inl e | Inr out \<Rightarrow> Inr (g out))"
  using assms by (cases a; cases b) simp_all

lemma sameUpTo_case2:
  assumes "rel_sum (=) (sameUpTo y1 y2) a b" "rel_sum (=) (sameUpTo y1 y2) a' b'"
  shows "rel_sum (=) (sameUpTo y1 y2)
    (case a of Inl e \<Rightarrow> Inl e
     | Inr replacement \<Rightarrow> (case a' of Inl e \<Rightarrow> Inl e | Inr out \<Rightarrow> Inr (replacement @ out)))
    (case b of Inl e \<Rightarrow> Inl e
     | Inr replacement \<Rightarrow> (case b' of Inl e \<Rightarrow> Inl e | Inr out \<Rightarrow> Inr (replacement @ out)))"
  using assms by (cases a; cases b; cases a'; cases b') (simp_all add: sameUpTo_append)

lemma replaceBlocks_sameUpTo:
  assumes Y: "yearText y1" "yearText y2"
    and start: "marker (openMarker re)" and ms: "list_all marker (markers re)"
    and cb: "\<And>m1 m2 gs1 gs2 o1 o2 w1 w2.
      sameUpTo y1 y2 m1 m2 \<Longrightarrow> list_all2 (sameUpTo y1 y2) gs1 gs2 \<Longrightarrow> sameUpTo y1 y2 w1 w2 \<Longrightarrow>
      rel_sum (=) (sameUpTo y1 y2) (cb (replacerArgs re m1 gs1 o1 w1)) (cb (replacerArgs re m2 gs2 o2 w2))"
    and whole: "sameUpTo y1 y2 w1 w2"
  shows "sameUpTo y1 y2 s1 s2 \<Longrightarrow>
    rel_sum (=) (sameUpTo y1 y2) (replaceBlocks re cb w1 o1 s1) (replaceBlocks re cb w2 o2 s2)"
proof (induction "length s1" arbitrary: s1 s2 o1 o2 rule: less_induct)
  case less
  from less.prems show ?case
  proof (cases rule: sameUpTo.cases)
    case empty
    show ?thesis unfolding empty replaceBlocks_Nil [OF start] by (simp add: sameUpTo.empty)
  next
    case (same t1 t2 x)
    from matchAt_sameUpTo [OF Y start ms less.prems] show ?thesis
    proof (elim disjE conjE exE)
      assume none: "matchAt re s1 = None" "matchAt re s2 = None"
      have shorter: "length t1 < length s1" by (simp add: same(1))
      note rest = less.hyps [OF shorter same(3), of "Suc o1" "Suc o2"]
      show ?thesis
        unfolding same(1,2) replaceBlocks_nomatch [OF none(1) [unfolded same(1)]]
          replaceBlocks_nomatch [OF none(2) [unfolded same(2)]]
        by (rule sameUpTo_case [OF rest]) (rule sameUpTo.same)
    next
      fix gs1 gs2 r1 r2 m1 m2
      assume some: "matchAt re s1 = Some (gs1, r1)" "matchAt re s2 = Some (gs2, r2)"
        "list_all2 (sameUpTo y1 y2) gs1 gs2" "sameUpTo y1 y2 r1 r2"
        "s1 = m1 @ r1" "s2 = m2 @ r2" "sameUpTo y1 y2 m1 m2" "m1 \<noteq> []" "m2 \<noteq> []"
      have shorter: "length r1 < length s1" using some(5,8) by simp
      note rest = less.hyps [OF shorter some(4), of "o1 + length m1" "o2 + length m2"]
      note call = cb [OF some(7) some(3) whole, of o1 o2]
      show ?thesis
        unfolding replaceBlocks_match [OF some(5) some(8) some(1)]
          replaceBlocks_match [OF some(6) some(9) some(2)]
        by (rule sameUpTo_case2 [OF call rest])
    qed
  next
    case (year t1 t2)
    from Y have digits: "list_all isDigit y1" "list_all isDigit y2" and "y1 \<noteq> []"
      by (simp_all add: yearText_def)
    have shorter: "length t1 < length s1" using \<open>y1 \<noteq> []\<close> by (simp add: year(1))
    note rest = less.hyps [OF shorter year(3), of "o1 + length y1" "o2 + length y2"]
    show ?thesis
      unfolding year(1,2) replaceBlocks_digits [OF start digits(1)]
        replaceBlocks_digits [OF start digits(2)]
      by (rule sameUpTo_case [OF rest]) (rule sameUpTo.year)
  qed
qed

subsubsection \<open>Trimming\<close>

lemma sameUpTo_spaces:
  assumes "yearText y1" "yearText y2"
  shows "sameUpTo y1 y2 s1 s2 \<Longrightarrow> list_all isWhiteSpace s1 \<longleftrightarrow> list_all isWhiteSpace s2"
proof (induction rule: sameUpTo.induct)
  case empty
  show ?case by simp
next
  case (same t1 t2 x)
  then show ?case by simp
next
  case (year t1 t2)
  from yearText_hd [OF assms(1)] yearText_hd [OF assms(2)] show ?case
    by (auto simp add: digit_not_space)
qed

lemma dropEnd_Cons:
  "rev (dropWhile P (rev (x # t)))
     = (if P x \<and> list_all P t then [] else x # rev (dropWhile P (rev t)))"
  by (auto simp add: dropWhile_append list_all_iff)

lemma dropEnd_digits:
  "list_all isDigit y \<Longrightarrow>
   rev (dropWhile isWhiteSpace (rev (y @ t))) = y @ rev (dropWhile isWhiteSpace (rev t))"
proof (induction y)
  case Nil
  show ?case by simp
next
  case (Cons d ds)
  then have "\<not> isWhiteSpace d" by (simp add: digit_not_space)
  with Cons show ?case unfolding append_Cons dropEnd_Cons by simp
qed

lemma dropEnd_sameUpTo:
  assumes Y: "yearText y1" "yearText y2"
  shows "sameUpTo y1 y2 s1 s2 \<Longrightarrow>
    sameUpTo y1 y2 (rev (dropWhile isWhiteSpace (rev s1))) (rev (dropWhile isWhiteSpace (rev s2)))"
proof (induction rule: sameUpTo.induct)
  case empty
  show ?case by (simp add: sameUpTo.empty)
next
  case (same t1 t2 x)
  from sameUpTo_spaces [OF Y same.hyps] same.IH show ?case
    unfolding dropEnd_Cons by (simp add: sameUpTo.empty sameUpTo.same)
next
  case (year t1 t2)
  from Y have digits: "list_all isDigit y1" "list_all isDigit y2" by (simp_all add: yearText_def)
  from year.IH show ?case
    unfolding dropEnd_digits [OF digits(1)] dropEnd_digits [OF digits(2)] by (rule sameUpTo.year)
qed

lemma trim_sameUpTo:
  assumes Y: "yearText y1" "yearText y2" and R: "sameUpTo y1 y2 s1 s2"
  shows "sameUpTo y1 y2 (trim s1) (trim s2)"
proof -
  from sameUpTo_dropWhile [OF Y R]
  have "sameUpTo y1 y2 (dropWhile isWhiteSpace s1) (dropWhile isWhiteSpace s2)" by blast
  then show ?thesis unfolding trim_def by (rule dropEnd_sameUpTo [OF Y])
qed

subsubsection \<open>Replacer callbacks\<close>

lemma nthArg_sameUpTo:
  "list_all2 (sameValueUpTo y1 y2) as bs \<Longrightarrow> sameValueUpTo y1 y2 (nthArg as i) (nthArg bs i)"
proof (induction as bs arbitrary: i rule: list_all2_induct)
  case Nil
  show ?case by simp
next
  case (Cons a as b bs)
  then show ?case by (cases i) simp_all
qed

lemma callTrim_sameUpTo:
  assumes "yearText y1" "yearText y2" "sameValueUpTo y1 y2 a b"
  shows "rel_sum (=) (sameUpTo y1 y2) (callTrim a) (callTrim b)"
  using assms(3) by (cases a; cases b) (simp_all add: trim_sameUpTo [OF assms(1,2)])

lemma replacerArgs_sameUpTo:
  assumes "sameUpTo y1 y2 m1 m2" "list_all2 (sameUpTo y1 y2) gs1 gs2" "sameUpTo y1 y2 w1 w2"
  shows "list_all2 (sameValueUpTo y1 y2) (replacerArgs re m1 gs1 o1 w1) (replacerArgs re m2 gs2 o2 w2)"
proof -
  from assms(2) have "list_all2 (sameValueUpTo y1 y2) (map Str gs1) (map Str gs2)"
    by (induction rule: list_all2_induct) simp_all
  with assms(1,3) show ?thesis
    by (simp add: replacerArgs_def list_all2_appendI)
qed

lemma languageCallback_sameUpTo:
  assumes "yearText y1" "yearText y2" "list_all2 (sameValueUpTo y1 y2) as bs"
  shows "rel_sum (=) (sameUpTo y1 y2) (languageCallback lang as) (languageCallback lang bs)"
  unfolding languageCallback_def Let_def
  by (simp add: callTrim_sameUpTo [OF assms(1,2) nthArg_sameUpTo [OF assms(3)]])

subsubsection \<open>Conditional blocks and template variables\<close>

lemma regex_markers:
  "marker (openMarker languageRegex1)" "list_all marker (markers languageRegex1)"
  "marker (openMarker languageRegex2)" "list_all marker (markers languageRegex2)"
  "marker (openMarker templateTypeRegex1)" "list_all marker (markers templateTypeRegex1)"
  "marker (openMarker templateTypeRegex2)" "list_all marker (markers templateTypeRegex2)"
  by (simp_all add: languageRegex1_def languageRegex2_def templateTypeRegex1_def
      templateTypeRegex2_def marker_def isDigit_def)

lemma sameUpTo_bind:
  assumes "rel_sum (=) (sameUpTo y1 y2) a b"
    and "\<And>u v. sameUpTo y1 y2 u v \<Longrightarrow> rel_sum (=) (sameUpTo y1 y2) (f u) (g v)"
  shows "rel_sum (=) (sameUpTo y1 y2)
    (case a of Inl e \<Rightarrow> Inl e | Inr out \<Rightarrow> f out)
    (case b of Inl e \<Rightarrow> Inl e | Inr out \<Rightarrow> g out)"
  using assms by (cases a; cases b) simp_all

lemma processLanguageConditionals_sameUpTo:
  assumes Y: "yearText y1" "yearText y2" and R: "sameUpTo y1 y2 c1 c2"
  shows "rel_sum (=) (sameUpTo y1 y2)
    (processLanguageConditionals config c1) (processLanguageConditionals config c2)"
proof -
  have cb: "rel_sum (=) (sameUpTo y1 y2)
      (languageCallback lang (replacerArgs re m1 gs1 o1 w1))
      (languageCallback lang (replacerArgs re m2 gs2 o2 w2))"
    if "sameUpTo y1 y2 m1 m2" "list_all2 (sameUpTo y1 y2) gs1 gs2" "sameUpTo y1 y2 w1 w2"
    for lang re m1 m2 gs1 gs2 o1 o2 w1 w2
    by (rule languageCallback_sameUpTo [OF Y replacerArgs_sameUpTo [OF that]])
  show ?thesis
    unfolding processLanguageConditionals_def Let_def
  proof (rule sameUpTo_bind)
    show "rel_sum (=) (sameUpTo y1 y2)
        (replaceBlocks languageRegex1 (languageCallback (orElse (language config) ''EN'')) c1 0 c1)
        (replaceBlocks languageRegex1 (languageCallback (orElse (language config) ''EN'')) c2 0 c2)"
      by (rule replaceBlocks_sameUpTo [where re = languageRegex1
          and cb = "languageCallback (orElse (language config) ''EN'')", OF Y regex_markers(1,2) cb R R])
  next
    fix u v assume uv: "sameUpTo y1 y2 u v"
    show "rel_sum (=) (sameUpTo y1 y2)
        (replaceBlocks languageRegex2 (languageCallback (orElse (language config) ''EN'')) u 0 u)
        (replaceBlocks languageRegex2 (languageCallback (orElse (language config) ''EN'')) v 0 v)"
      by (rule replaceBlocks_sameUpTo [where re = languageRegex2
          and cb = "languageCallback (orElse (language config) ''EN'')", OF Y regex_markers(3,4) cb uv uv])
  qed
qed

lemma processTemplateTypeConditionals_sameUpTo:
  assumes Y: "yearText y1" "yearText y2" and R: "sameUpTo y1 y2 c1 c2"
  shows "rel_sum (=) (sameUpTo y1 y2)
    (processTemplateTypeConditionals c1) (processTemplateTypeConditionals c2)"
proof -
  have cb: "rel_sum (=) (sameUpTo y1 y2)
      (callTrim (nthArg (replacerArgs re m1 gs1 o1 w1) k))
      (callTrim (nthArg (replacerArgs re m2 gs2 o2 w2) k))"
    if "sameUpTo y1 y2 m1 m2" "list_all2 (sameUpTo y1 y2) gs1 gs2" "sameUpTo y1 y2 w1 w2"
    for k re m1 m2 gs1 gs2 o1 o2 w1 w2
    by (rule callTrim_sameUpTo [OF Y nthArg_sameUpTo [OF replacerArgs_sameUpTo [OF that]]])
  show ?thesis
    unfolding processTemplateTypeConditionals_def
  proof (rule sameUpTo_bind)
    show "rel_sum (=) (sameUpTo y1 y2)
        (replaceBlocks templateTypeRegex1 (\<lambda>args. callTrim (nthArg args 1)) c1 0 c1)
        (replaceBlocks templateTypeRegex1 (\<lambda>args. callTrim (nthArg args 1)) c2 0 c2)"
      by (rule replaceBlocks_sameUpTo [where re = templateTypeRegex1
          and cb = "\<lambda>args. callTrim (nthArg args 1)", OF Y regex_markers(5,6) cb R R])
  next
    fix u v assume uv: "sameUpTo y1 y2 u v"
    show "rel_sum (=) (sameUpTo y1 y2)
        (replaceBlocks templateTypeRegex2 (\<lambda>args. callTrim (nthArg args 2)) u 0 u)
        (replaceBlocks templateTypeRegex2 (\<lambda>args. callTrim (nthArg args 2)) v 0 v)"
      by (rule replaceBlocks_sameUpTo [where re = templateTypeRegex2
          and cb = "\<lambda>args. callTrim (nthArg args 2)", OF Y regex_markers(7,8) cb uv uv])
  qed
qed

lemma replaceVariables_sameUpTo:
  assumes Y: "yearText y1" "yearText y2"
  shows "list_all2 (\<lambda>(k1, v1) (k2, v2). k1 = k2 \<and> list_all (\<lambda>c. \<not> isDigit c) k1
            \<and> (v1 = v2 \<or> toString v1 = y1 \<and> toString v2 = y2)) vars1 vars2 \<Longrightarrow>
    sameUpTo y1 y2 c1 c2 \<Longrightarrow>
    sameUpTo y1 y2
      (fold (\<lambda>(key, value) c. replaceVariable key (toString value) [] c) vars1 c1)
      (fold (\<lambda>(key, value) c. replaceVariable key (toString value) [] c) vars2 c2)"
proof (induction vars1 vars2 arbitrary: c1 c2 rule: list_all2_induct)
  case Nil
  then show ?case by simp
next
  case (Cons a vars1 b vars2)
  from Cons.hyps(1) obtain k v1 v2 where a: "a = (k, v1)" and b: "b = (k, v2)"
    and key: "list_all (\<lambda>c. \<not> isDigit c) k"
    and v: "v1 = v2 \<or> toString v1 = y1 \<and> toString v2 = y2"
    by (cases a; cases b) auto
  from Y have digits: "list_all isDigit y1" "list_all isDigit y2" by (simp_all add: yearText_def)
  have repl: "sameUpTo y1 y2 (getSubstitution tok p1 f1 (toString v1)) (getSubstitution tok p2 f2 (toString v2))"
    if "sameUpTo y1 y2 p1 p2" "sameUpTo y1 y2 f1 f2" for tok p1 p2 f1 f2
    using v
  proof
    assume "v1 = v2"
    with that show ?thesis by (simp add: getSubstitution_sameUpTo)
  next
    assume "toString v1 = y1 \<and> toString v2 = y2"
    with digits show ?thesis by (simp add: getSubstitution_digits sameUpTo_years)
  qed
  have "sameUpTo y1 y2 (replaceVariable k (toString v1) [] c1) (replaceVariable k (toString v2) [] c2)"
    by (rule replaceVariable_sameUpTo [OF Y key repl sameUpTo.empty Cons.prems])
  from Cons.IH [OF this] show ?case by (simp add: a b)
qed

lemma getTemplateVariables_sameUpTo:
  "list_all2 (\<lambda>(k1, v1) (k2, v2). k1 = k2 \<and> list_all (\<lambda>c. \<not> isDigit c) k1
      \<and> (v1 = v2 \<or> toString v1 = numberToString (getFullYear a)
            \<and> toString v2 = numberToString (getFullYear b)))
    (getTemplateVariables a config) (getTemplateVariables b config)"
  by (simp add: getTemplateVariables_def isDigit_def)

lemma processTemplateVariables_sameUpTo:
  "rel_sum (=) (sameUpTo (numberToString (getFullYear a)) (numberToString (getFullYear b)))
     (processTemplateVariables config a content) (processTemplateVariables config b content)"
proof -
  note Y = yearText_numberToString [of "getFullYear a"] yearText_numberToString [of "getFullYear b"]
  note vars = replaceVariables_sameUpTo [OF Y getTemplateVariables_sameUpTo sameUpTo_refl]
  show ?thesis
    unfolding processTemplateVariables_def Let_def
    by (rule sameUpTo_bind [OF processLanguageConditionals_sameUpTo [OF Y vars]])
      (rule processTemplateTypeConditionals_sameUpTo [OF Y])
qed

subsubsection \<open>The archive\<close>

lemma sameFiles_Nil: "sameFilesUpToYear year1 year2 [] []"
  by (simp add: sameFilesUpToYear_def)

lemma sameFiles_names:
  "sameFilesUpToYear year1 year2 z1 z2 \<Longrightarrow> map fst z1 = map fst z2"
  unfolding sameFilesUpToYear_def
  by (induction rule: list_all2_induct) auto

lemma sameFiles_same_year:
  "sameFilesUpToYear year1 year2 z1 z2 \<Longrightarrow> \<forall>name \<in> set (map fst z1). year1 name = year2 name \<Longrightarrow>
   z1 = z2"
  unfolding sameFilesUpToYear_def
  by (induction rule: list_all2_induct) (auto dest: sameUpTo_same_year)

lemma zipFile_sameUpTo:
  "sameFilesUpToYear year1 year2 z1 z2 \<Longrightarrow> sameUpTo (year1 name) (year2 name) c1 c2 \<Longrightarrow>
   sameFilesUpToYear year1 year2 (zipFile name c1 z1) (zipFile name c2 z2)"
  unfolding sameFilesUpToYear_def
  by (induction rule: list_all2_induct) auto

lemma fold_sameUpTo:
  assumes "\<And>x z1 z2. sameFilesUpToYear year1 year2 z1 z2 \<Longrightarrow> sameFilesUpToYear year1 year2 (f x z1) (g x z2)"
  shows "sameFilesUpToYear year1 year2 z1 z2 \<Longrightarrow>
    sameFilesUpToYear year1 year2 (fold f xs z1) (fold g xs z2)"
  by (induction xs arbitrary: z1 z2) (simp_all add: assms)

lemma processTemplateFile_sameUpTo:
  assumes "sameFilesUpToYear (yearRead clock1) (yearRead clock2) z1 z2"
  shows "sameFilesUpToYear (yearRead clock1) (yearRead clock2)
    (processTemplateFile fetch config clock1 filename z1)
    (processTemplateFile fetch config clock2 filename z2)"
proof (cases "fetch (templatePath @ ''/'' @ filename)")
  case None
  with assms show ?thesis by (simp add: processTemplateFile_def)
next
  case (Some content)
  from processTemplateVariables_sameUpTo [of "clock1 filename" "clock2 filename" config content]
  have "rel_sum (=) (sameUpTo (yearRead clock1 filename) (yearRead clock2 filename))
      (processTemplateVariables config (clock1 filename) content)
      (processTemplateVariables config (clock2 filename) content)"
    by (simp only: yearRead_def)
  with assms Some show ?thesis
    by (cases "processTemplateVariables config (clock1 filename) content";
        cases "processTemplateVariables config (clock2 filename) content")
      (simp_all add: processTemplateFile_def zipFile_sameUpTo)
qed

lemma copyStaticFile_sameUpTo:
  "sameFilesUpToYear year1 year2 z1 z2 \<Longrightarrow>
   sameFilesUpToYear year1 year2 (copyStaticFile fetch filename z1) (copyStaticFile fetch filename z2)"
  by (simp add: copyStaticFile_def zipFile_sameUpTo sameUpTo_refl split: option.splits)

lemma copyFile_sameUpTo:
  "sameFilesUpToYear year1 year2 z1 z2 \<Longrightarrow>
   sameFilesUpToYear year1 year2 (copyFile fetch z1 target source) (copyFile fetch z2 target source)"
  by (simp add: copyFile_def zipFile_sameUpTo sameUpTo_refl split: option.splits)

lemma copyDirectory_sameUpTo:
  "sameFilesUpToYear year1 year2 z1 z2 \<Longrightarrow>
   sameFilesUpToYear year1 year2 (copyDirectory fetch z1 target source) (copyDirectory fetch z2 target source)"
  unfolding copyDirectory_def by (simp add: copyFile_sameUpTo)

lemma copyAssetDirectories_sameUpTo:
  "sameFilesUpToYear year1 year2 z1 z2 \<Longrightarrow>
   sameFilesUpToYear year1 year2 (copyAssetDirectories fetch z1) (copyAssetDirectories fetch z2)"
  unfolding copyAssetDirectories_def by (rule fold_sameUpTo) (rule copyDirectory_sameUpTo)

lemma processTemplateFiles_sameUpTo:
  assumes "sameFilesUpToYear (yearRead clock1) (yearRead clock2) z1 z2"
  shows "sameFilesUpToYear (yearRead clock1) (yearRead clock2)
    (processTemplateFiles fetch config clock1 z1) (processTemplateFiles fetch config clock2 z2)"
  unfolding processTemplateFiles_def
  by (intro copyAssetDirectories_sameUpTo fold_sameUpTo copyStaticFile_sameUpTo
      processTemplateFile_sameUpTo assms)

lemma lookupVar_values:
  "toString (lookupVar (getTemplateVariables now config) ''lessonTitle'')
     = orElse (lessonTitle config) ''Untitled Lesson''"
  "toString (lookupVar (getTemplateVariables now config) ''lessonDesc'')
     = orElse (description config) ''MetEd lesson created with the lesson generator''"
  "toString (lookupVar (getTemplateVariables now config) ''lessonKeys'')
     = orElse (keywords' config) ''meteorology, education, training''"
  by (simp_all add: getTemplateVariables_def lookupVar_def)

lemma generateUnitPrintContent_sameUpTo:
  "sameUpTo (numberToString (getFullYear a)) (numberToString (getFullYear b))
     (generateUnitPrintContent config a page unitNumber)
     (generateUnitPrintContent config b page unitNumber)"
  unfolding generateUnitPrintContent_def Let_def lookupVar_values copyrightYear_value
  by ((rule sameUpTo_prepend)+, rule sameUpTo.year, rule sameUpTo_refl)

lemma generateUnitPrintFilesFrom_sameUpTo:
  "sameFilesUpToYear (yearRead clock1) (yearRead clock2) z1 z2 \<Longrightarrow>
   sameFilesUpToYear (yearRead clock1) (yearRead clock2)
     (generateUnitPrintFilesFrom config clock1 index ps z1)
     (generateUnitPrintFilesFrom config clock2 index ps z2)"
proof (induction ps arbitrary: index z1 z2)
  case Nil
  then show ?case by simp
next
  case (Cons p ps)
  have "sameUpTo (yearRead clock1 (unitPrintName (Suc index))) (yearRead clock2 (unitPrintName (Suc index)))
      (generateUnitPrintContent config (clock1 (unitPrintName (Suc index))) p (Suc index))
      (generateUnitPrintContent config (clock2 (unitPrintName (Suc index))) p (Suc index))"
    unfolding yearRead_def by (rule generateUnitPrintContent_sameUpTo)
  from Cons.IH [OF zipFile_sameUpTo [OF Cons.prems this]] show ?case
    by (simp only: generateUnitPrintFilesFrom_Cons)
qed

lemma generateLesson_sameUpTo:
  "sameFilesUpToYear (yearRead clock1) (yearRead clock2)
     (generateLesson fetch clock1 config) (generateLesson fetch clock2 config)"
  unfolding generateLesson_def generateUnitPrintFiles_def
  by (intro generateUnitPrintFilesFrom_sameUpTo processTemplateFiles_sameUpTo sameFiles_Nil)

lemma numberToString_2027: "numberToString 2027 = ''2027''"
  by code_simp

lemma sameUpTo_examples:
  "sameUpTo ''2026'' ''2027'' ''&copy; 2026, UCAR'' ''&copy; 2027, UCAR''"
  "\<not> sameUpTo ''2026'' ''2027'' ''May 2026'' ''June 2027''"
proof -
  have "sameUpTo ''2026'' ''2027'' (''&copy; '' @ ''2026'' @ '', UCAR'') (''&copy; '' @ ''2027'' @ '', UCAR'')"
    by (intro sameUpTo_prepend sameUpTo.year sameUpTo_refl)
  then show "sameUpTo ''2026'' ''2027'' ''&copy; 2026, UCAR'' ''&copy; 2027, UCAR''" by simp
  have Y: "yearText ''2026''" "yearText ''2027''" by (simp_all add: yearText_def isDigit_def)
  show "\<not> sameUpTo ''2026'' ''2027'' ''May 2026'' ''June 2027''"
  proof
    assume "sameUpTo ''2026'' ''2027'' ''May 2026'' ''June 2027''"
    from sameUpTo_Cons [OF Y this] show False by (simp add: isDigit_def)
  qed
qed

text \<open>
  C9, amended. Two runs of the generator on the same configuration that get the same
  answers to their requests for the template files produce the same paths in the same
  order, whatever their clocks read; and at each path the two contents are the same
  except at places where one run has the year that its clock returned for that file and
  the other run has the year of its own clock. When the years agree, the two archives are
  equal. Nothing else of the instants, no random value and no publication date enters a
  path or a content.
\<close>

theorem generateLesson_same_up_to_year:
  "map fst (generateLesson fetch clock1 config) = map fst (generateLesson fetch clock2 config)
   \<and> sameFilesUpToYear (yearRead clock1) (yearRead clock2)
        (generateLesson fetch clock1 config) (generateLesson fetch clock2 config)
   \<and> ((\<forall>name \<in> set (map fst (generateLesson fetch clock1 config)).
          getFullYear (clock1 name) = getFullYear (clock2 name))
        \<longrightarrow> generateLesson fetch clock1 config = generateLesson fetch clock2 config)"
proof (intro conjI impI)
  show "map fst (generateLesson fetch clock1 config) = map fst (generateLesson fetch clock2 config)"
    by (rule sameFiles_names [OF generateLesson_sameUpTo])
  show "sameFilesUpToYear (yearRead clock1) (yearRead clock2)
        (generateLesson fetch clock1 config) (generateLesson fetch clock2 config)"
    by (rule generateLesson_sameUpTo)
  assume "\<forall>name \<in> set (map fst (generateLesson fetch clock1 config)).
          getFullYear (clock1 name) = getFullYear (clock2 name)"
  then have "\<forall>name \<in> set (map fst (generateLesson fetch clock1 config)).
          yearRead clock1 name = yearRead clock2 name"
    by (simp add: yearRead_def)
  with generateLesson_sameUpTo show "generateLesson fetch clock1 config = generateLesson fetch clock2 config"
    by (rule sameFiles_same_year)
qed

text \<open>
  The theorem at a run in November 2026 and a run on the first of January 2027, and at a
  run on the last millisecond of December 2026.
\<close>

theorem generateLesson_same_up_to_year_witness:
  "map fst (generateLesson templateServer (\<lambda>filename. exampleDate) twoLevelConfig)
     = map fst (generateLesson templateServer (\<lambda>filename. nextYear) twoLevelConfig)
   \<and> sameFilesUpToYear (\<lambda>filename. ''2026'') (\<lambda>filename. ''2027'')
        (generateLesson templateServer (\<lambda>filename. exampleDate) twoLevelConfig)
        (generateLesson templateServer (\<lambda>filename. nextYear) twoLevelConfig)
   \<and> exampleDate \<noteq> laterThatYear
   \<and> generateLesson templateServer (\<lambda>filename. exampleDate) twoLevelConfig
       = generateLesson templateServer (\<lambda>filename. laterThatYear) twoLevelConfig"
proof -
  have years: "yearRead (\<lambda>filename. exampleDate) = (\<lambda>filename. ''2026'')"
    "yearRead (\<lambda>filename. nextYear) = (\<lambda>filename. ''2027'')"
    by (simp_all add: fun_eq_iff yearRead_def getFullYear_def exampleDate_def nextYear_def
        numberToString_2026 numberToString_2027)
  have same: "getFullYear exampleDate = getFullYear laterThatYear" and other: "exampleDate \<noteq> laterThatYear"
    by (simp_all add: getFullYear_def exampleDate_def laterThatYear_def)
  note later = generateLesson_same_up_to_year [of templateServer "\<lambda>filename. exampleDate"
      twoLevelConfig "\<lambda>filename. nextYear", unfolded years]
  note sameYear = generateLesson_same_up_to_year [of templateServer "\<lambda>filename. exampleDate"
      twoLevelConfig "\<lambda>filename. laterThatYear"]
  have agree: "\<forall>name \<in> set (map fst (generateLesson templateServer (\<lambda>filename. exampleDate) twoLevelConfig)).
      getFullYear exampleDate = getFullYear laterThatYear"
    using same by simp
  from later [THEN conjunct1] later [THEN conjunct2, THEN conjunct1] other
    sameYear [THEN conjunct2, THEN conjunct2, THEN mp, OF agree]
  show ?thesis by (intro conjI)
qed

text \<open>
  C9 as stated fails: the configuration and the clock are the same in both runs, and the
  archive of the run whose requests for the template files fail holds the two unit print
  files only, while the archive of the run whose requests are answered holds the template
  files as well. The generator takes no assets.
\<close>

theorem generateLesson_fetch_counterexample:
  "map fst (generateLesson noFetch (\<lambda>filename. exampleDate) twoLevelConfig)
     = [''print_1.php'', ''print_2.php'']
   \<and> ''modernizr/modernizr.min.js''
        \<in> set (map fst (generateLesson templateServer (\<lambda>filename. exampleDate) twoLevelConfig))
   \<and> generateLesson noFetch (\<lambda>filename. exampleDate) twoLevelConfig
       \<noteq> generateLesson templateServer (\<lambda>filename. exampleDate) twoLevelConfig"
proof -
  have none: "processTemplateFiles noFetch twoLevelConfig (\<lambda>filename. exampleDate) [] = []"
    by (simp add: processTemplateFiles_def processTemplateFile_def copyStaticFile_def
        copyAssetDirectories_def copyDirectory_def copyFile_def noFetch_def
        templateFiles_def staticFiles_def assetDirectories_def)
  have units: "unitPrintName (Suc 0) = ''print_1.php''" "unitPrintName (Suc (Suc 0)) = ''print_2.php''"
    by code_simp+
  have "length (pages twoLevelConfig) = 2" by (simp add: twoLevelConfig_def)
  then have names: "map unitPrintName [Suc 0 ..< Suc 0 + length (pages twoLevelConfig)]
      = [''print_1.php'', ''print_2.php'']"
    by (simp add: upt_rec units)
  have first: "map fst (generateLesson noFetch (\<lambda>filename. exampleDate) twoLevelConfig)
      = [''print_1.php'', ''print_2.php'']"
    unfolding generateLesson_keys none names by simp
  have "''modernizr/modernizr.min.js''
      \<in> set (map fst (processTemplateFiles templateServer twoLevelConfig (\<lambda>filename. exampleDate) []))"
    by (simp add: processTemplateFiles_def copyAssetDirectories_def assetDirectories_def
        copyDirectory_def copyFile_def templateServer_def zipFile_keys)
  then have second: "''modernizr/modernizr.min.js''
      \<in> set (map fst (generateLesson templateServer (\<lambda>filename. exampleDate) twoLevelConfig))"
    unfolding generateLesson_keys by simp
  from first second have "map fst (generateLesson noFetch (\<lambda>filename. exampleDate) twoLevelConfig)
      \<noteq> map fst (generateLesson templateServer (\<lambda>filename. exampleDate) twoLevelConfig)"
    by auto
  then have "generateLesson noFetch (\<lambda>filename. exampleDate) twoLevelConfig
      \<noteq> generateLesson templateServer (\<lambda>filename. exampleDate) twoLevelConfig"
    by auto
  with first second show ?thesis by (intro conjI)
qed

section \<open>Properties of the content pages form\<close>

subsection \<open>Deleting pages\<close>

text \<open>
  C4, at the form with a page \<open>a\<close>, its subpage \<open>b\<close> and the sub-subpage \<open>c\<close> of
  \<open>b\<close>: deleting \<open>a\<close> removes \<open>a\<close> and \<open>b\<close> and keeps \<open>c\<close>, whose parent \<open>b\<close> is
  no longer in the collection.
\<close>

theorem delete_leaves_grandchild:
  "map (\<lambda>p. (id' p, level' p, parentId' p)) (configPages threeLevelForm)
     = [(''a'', 1, None), (''b'', 2, Some ''a''), (''c'', 3, Some ''b'')]
   \<and> map (\<lambda>p. (id' p, level' p, parentId' p)) (configPages (handleDeletePage ''a'' threeLevelForm))
     = [(''c'', 3, Some ''b'')]"
  by code_simp

text \<open>
  C5, at the form with two top-level pages: after the first is deleted the remaining
  page still has the order 2, and the page added next gets the order 2 as well.
\<close>

theorem delete_keeps_orders:
  "map order' (configPages (handleAddPage ''b'' 1 None (handleAddPage ''a'' 1 None emptyForm))) = [1, 2]
   \<and> map order'
        (configPages (handleDeletePage ''a''
          (handleAddPage ''b'' 1 None (handleAddPage ''a'' 1 None emptyForm)))) = [2]
   \<and> map order'
        (configPages (handleAddPage ''c'' 1 None (handleDeletePage ''a''
          (handleAddPage ''b'' 1 None (handleAddPage ''a'' 1 None emptyForm))))) = [2, 2]"
  by code_simp

subsection \<open>JSON import\<close>

lemma convert_leaves:
  "list_all (\<lambda>inner. inner \<noteq> NullItem \<and> innerMenu inner = []) items \<Longrightarrow>
   \<exists>ps. convertMenuFrom uuidv4 n items parentId level index = Inr (ps, n + length items)
      \<and> length ps = length items
      \<and> list_all (\<lambda>p. level' p = level \<and> parentId' p = parentId) ps"
proof (induction items arbitrary: n index)
  case Nil
  then show ?case by simp
next
  case (Cons item rest)
  from Cons.prems obtain a b c d e f where item: "item = Item a b c d e f None \<or> item = Item a b c d e f (Some [])"
    by (cases item) (auto split: option.splits)
  from Cons.prems have "list_all (\<lambda>inner. inner \<noteq> NullItem \<and> innerMenu inner = []) rest"
    by simp
  from Cons.IH [OF this, of "Suc n" "Suc index"]
  obtain ps where ps: "convertMenuFrom uuidv4 (Suc n) rest parentId level (Suc index) = Inr (ps, Suc n + length rest)"
    "length ps = length rest" "list_all (\<lambda>p. level' p = level \<and> parentId' p = parentId) ps"
    by blast
  from item ps show ?case
    by (auto simp: Let_def)
qed

lemma filter_level_none:
  "list_all (\<lambda>p. level' p = l \<and> parentId' p = par) ps \<Longrightarrow> l \<noteq> k \<Longrightarrow> filter (\<lambda>p. level' p = k) ps = []"
  by (induction ps) auto

lemma filter_level_all:
  "list_all (\<lambda>p. level' p = l \<and> parentId' p = par) ps \<Longrightarrow> filter (\<lambda>p. level' p = l) ps = ps"
  by (induction ps) auto

lemma convert_two_level:
  "wellFormedTwoLevel menu \<Longrightarrow>
   \<exists>ps n'. convertMenuFrom uuidv4 n menu parentId level index = Inr (ps, n')
      \<and> length (filter (\<lambda>p. level' p = level) ps) = length menu
      \<and> length (filter (\<lambda>p. level' p = Suc level) ps) = sum_list (map (\<lambda>item. length (innerMenu item)) menu)
      \<and> (\<forall>p \<in> set ps. level' p = Suc level \<longrightarrow>
            (\<exists>q \<in> set ps. level' q = level \<and> parentId' p = Some (id' q)))"
proof (induction menu arbitrary: n index)
  case Nil
  then show ?case by simp
next
  case (Cons item rest)
  from Cons.prems obtain a b c d e f m where item: "item = Item a b c d e f m"
    by (cases item) (auto simp: wellFormedTwoLevel_def)
  from Cons.prems item have leaves: "list_all (\<lambda>inner. inner \<noteq> NullItem \<and> innerMenu inner = []) (innerMenu item)"
    and rest: "wellFormedTwoLevel rest"
    by (auto simp: wellFormedTwoLevel_def)
  from convert_leaves [OF leaves, of uuidv4 "Suc n" "Some (uuidv4 n)" "Suc level" 0]
  obtain cs where cs: "convertMenuFrom uuidv4 (Suc n) (innerMenu item) (Some (uuidv4 n)) (Suc level) 0
        = Inr (cs, Suc n + length (innerMenu item))"
    "length cs = length (innerMenu item)"
    "list_all (\<lambda>p. level' p = Suc level \<and> parentId' p = Some (uuidv4 n)) cs"
    by blast
  from Cons.IH [OF rest, of "Suc n + length (innerMenu item)" "Suc index"]
  obtain ps n' where ps: "convertMenuFrom uuidv4 (Suc n + length (innerMenu item)) rest parentId level (Suc index) = Inr (ps, n')"
    "length (filter (\<lambda>p. level' p = level) ps) = length rest"
    "length (filter (\<lambda>p. level' p = Suc level) ps) = sum_list (map (\<lambda>item. length (innerMenu item)) rest)"
    "\<forall>p \<in> set ps. level' p = Suc level \<longrightarrow> (\<exists>q \<in> set ps. level' q = level \<and> parentId' p = Some (id' q))"
    by blast
  have inner: "(if m \<noteq> None \<and> 0 < length (the m)
               then convertMenuFrom uuidv4 (Suc n) (the m) (Some (uuidv4 n)) (level + 1) 0
               else Inr ([], Suc n)) = Inr (cs, Suc n + length (innerMenu item))"
    using cs item by (cases m) auto
  have f1: "filter (\<lambda>p. level' p = level) cs = []"
    using filter_level_none [OF cs(3), of level] by simp
  have f2: "filter (\<lambda>p. level' p = Suc level) cs = cs"
    using filter_level_all [OF cs(3)] by simp
  have par: "\<forall>p \<in> set cs. parentId' p = Some (uuidv4 n)"
    using cs(3) by (simp add: list_all_iff)
  show ?case
    unfolding item convertMenuFrom.simps Let_def inner
    using ps f1 f2 cs(2) par item
    by (auto simp: Let_def)
qed

lemma convert_fails_iff:
  "(\<exists>e. convertMenuFrom uuidv4 n items parentId level index = Inl e) \<longleftrightarrow> list_ex hasNullEntry items"
proof (induction uuidv4 n items parentId level index rule: convertMenuFrom.induct)
  case (1 uuidv4 n parentId level index)
  then show ?case by simp
next
  case (2 uuidv4 n rest parentId level index)
  then show ?case by simp
next
  case (3 uuidv4 n a b c d g f itemMenu rest parentId level index)
  let ?inner = "if itemMenu \<noteq> None \<and> 0 < length (the itemMenu)
               then convertMenuFrom uuidv4 (Suc n) (the itemMenu) (Some (uuidv4 n)) (level + 1) 0
               else Inr ([], Suc n)"
  have inner_iff: "(\<exists>e. ?inner = Inl e) \<longleftrightarrow> hasNullEntry (Item a b c d g f itemMenu)"
  proof (cases "itemMenu \<noteq> None \<and> 0 < length (the itemMenu)")
    case True
    from 3(1) [OF refl refl True] True show ?thesis by (cases itemMenu) auto
  next
    case False
    then show ?thesis by (cases itemMenu) auto
  qed
  show ?case
  proof (cases ?inner)
    case (Inl e)
    then have "convertMenuFrom uuidv4 n (Item a b c d g f itemMenu # rest) parentId level index = Inl e"
      by (simp add: Let_def)
    moreover from Inl inner_iff have "hasNullEntry (Item a b c d g f itemMenu)" by blast
    ultimately show ?thesis by simp
  next
    case (Inr r)
    obtain cs n1 where r: "r = (cs, n1)" by (cases r)
    from Inr inner_iff have no: "\<not> hasNullEntry (Item a b c d g f itemMenu)" by auto
    from Inr r have eq: "?inner = Inr (cs, n1)" by simp
    have ih: "(\<exists>e. convertMenuFrom uuidv4 n1 rest parentId level (Suc index) = Inl e) \<longleftrightarrow> list_ex hasNullEntry rest"
      by (rule 3(2) [OF refl refl eq refl])
    have "(\<exists>e. convertMenuFrom uuidv4 n (Item a b c d g f itemMenu # rest) parentId level index = Inl e)
       \<longleftrightarrow> (\<exists>e. convertMenuFrom uuidv4 n1 rest parentId level (Suc index) = Inl e)"
    proof (cases "convertMenuFrom uuidv4 n1 rest parentId level (Suc index)")
      case (Inl err)
      then show ?thesis using eq by (simp add: Let_def)
    next
      case (Inr r2)
      obtain ss n2 where "r2 = (ss, n2)" by (cases r2)
      with Inr show ?thesis using eq by (simp add: Let_def)
    qed
    with ih no show ?thesis by simp
  qed
qed

text \<open>
  C6. For every well-formed two-level menu the import returns a page list in which the
  pages of level 1 are as many as the entries of the outer array, the pages of level 2
  as many as the entries of all inner arrays together, and the parent of every page of
  level 2 is the identifier of a page of level 1 of the list.
\<close>

theorem import_two_level_counts:
  assumes "wellFormedTwoLevel menu"
  shows "\<exists>ps n'. convertMenuToPages uuidv4 n menu None 1 = Inr (ps, n')
      \<and> length (filter (\<lambda>p. level' p = 1) ps) = length menu
      \<and> length (filter (\<lambda>p. level' p = 2) ps) = sum_list (map (\<lambda>item. length (innerMenu item)) menu)
      \<and> (\<forall>p \<in> set ps. level' p = 2 \<longrightarrow>
            (\<exists>q \<in> set ps. level' q = 1 \<and> parentId' p = Some (id' q)))"
  using convert_two_level [OF assms, of uuidv4 n None 1 0]
  by (simp add: convertMenuToPages_def numeral_2_eq_2)

text \<open>The theorem at a menu of two entries, the first with an inner menu of two.\<close>

theorem import_two_level_counts_witness:
  "wellFormedTwoLevel exampleMenu
   \<and> (\<exists>ps n'. convertMenuToPages exampleUuid 0 exampleMenu None 1 = Inr (ps, n')
      \<and> length (filter (\<lambda>p. level' p = 1) ps) = length exampleMenu
      \<and> length (filter (\<lambda>p. level' p = 2) ps)
          = sum_list (map (\<lambda>item. length (innerMenu item)) exampleMenu)
      \<and> (\<forall>p \<in> set ps. level' p = 2 \<longrightarrow>
            (\<exists>q \<in> set ps. level' q = 1 \<and> parentId' p = Some (id' q))))"
proof -
  have h: "wellFormedTwoLevel exampleMenu"
    by (simp add: wellFormedTwoLevel_def exampleMenu_def)
  from h import_two_level_counts [OF h, of exampleUuid 0] show ?thesis
    by (rule conjI)
qed

text \<open>
  C7, amended. The import of a chosen file fails exactly when the text is not valid
  JSON, or the parsed document has no array field \<open>menu\<close>, or an entry of the menu, at
  any depth, is \<open>null\<close>; and when it fails the page collection is unchanged.
\<close>

theorem json_import_failure:
  "(importFailed (handleJsonImport JSON_parse uuidv4 (Some jsonText) state)
      \<longleftrightarrow> (case JSON_parse jsonText of
             None \<Rightarrow> True
           | Some document \<Rightarrow>
               lacksMenuArray document \<or> list_ex hasNullEntry (menuEntries document)))
   \<and> (importFailed (handleJsonImport JSON_parse uuidv4 (Some jsonText) state)
      \<longrightarrow> configPages (handleJsonImport JSON_parse uuidv4 (Some jsonText) state)
            = configPages state)"
proof (cases "JSON_parse jsonText")
  case None
  then show ?thesis by (simp add: handleJsonImport_def importFailed_def)
next
  case (Some document)
  show ?thesis
  proof (cases document)
    case NullDocument
    with Some show ?thesis by (simp add: handleJsonImport_def importFailed_def)
  next
    case (Document m)
    show ?thesis
    proof (cases m)
      case None
      with Some Document show ?thesis by (simp add: handleJsonImport_def importFailed_def)
    next
      case (Some menu)
      note m = this
      show ?thesis
      proof (cases "convertMenuFrom uuidv4 0 menu None 1 0")
        case (Inl err)
        then have "list_ex hasNullEntry menu"
          using convert_fails_iff [of uuidv4 0 menu None 1 0] by blast
        with Inl \<open>JSON_parse jsonText = Some document\<close> Document m show ?thesis
          by (simp add: handleJsonImport_def importFailed_def convertMenuToPages_def)
      next
        case (Inr r)
        obtain ps n' where r: "r = (ps, n')" by (cases r)
        from Inr have "\<not> list_ex hasNullEntry menu"
          using convert_fails_iff [of uuidv4 0 menu None 1 0] by auto
        with Inr r \<open>JSON_parse jsonText = Some document\<close> Document m show ?thesis
          by (simp add: handleJsonImport_def importFailed_def convertMenuToPages_def)
      qed
    qed
  qed
qed

text \<open>
  The theorem at a text that is not valid JSON, chosen in the form with three pages: the
  import fails and the three pages stay.
\<close>

theorem json_import_failure_witness:
  "importFailed (handleJsonImport (\<lambda>t. None) exampleUuid (Some ''{menu'') threeLevelForm)
   \<and> map id' (configPages (handleJsonImport (\<lambda>t. None) exampleUuid (Some ''{menu'') threeLevelForm))
       = [''a'', ''b'', ''c'']"
proof -
  note t = json_import_failure [of "\<lambda>t. None" exampleUuid "''{menu''" threeLevelForm]
  from t have failed: "importFailed (handleJsonImport (\<lambda>t. None) exampleUuid (Some ''{menu'') threeLevelForm)"
    by simp
  with t have "configPages (handleJsonImport (\<lambda>t. None) exampleUuid (Some ''{menu'') threeLevelForm)
      = configPages threeLevelForm"
    by blast
  moreover have "map id' (configPages threeLevelForm) = [''a'', ''b'', ''c'']"
    by code_simp
  ultimately show ?thesis using failed by simp
qed

text \<open>
  C7 as stated fails: the document \<open>{"menu": [null]}\<close> is valid JSON and has an array
  field \<open>menu\<close>, and its import fails.
\<close>

theorem json_import_counterexample:
  "\<not> lacksMenuArray (Document (Some [NullItem]))
   \<and> importFailed
       (handleJsonImport (\<lambda>t. Some (Document (Some [NullItem]))) exampleUuid
          (Some ''{ menu: [null] }'') emptyForm)"
  by (simp add: handleJsonImport_def importFailed_def convertMenuToPages_def)

end
